theory Spec2Isabelle
  imports Main "HOL-Library.Word"
begin

section \<open>Data model\<close>

text \<open>
  Python \<open>bytes\<close> are lists of 8-bit words.  Python \<open>str\<close> is \<open>string\<close>, a character
  being the code point of that number: the strings of the model are the strings whose
  code points are below 256.  The backslash of the Windows paths is written by its
  code point.
\<close>

type_synonym byte = "8 word"
type_synonym bytes = "byte list"

definition backslash :: char where
  "backslash = CHR 0x5C"

text \<open>An element of an \<open>xml.etree.ElementTree\<close> document: tag, attributes, children.\<close>

datatype xml = Element (tag: string) (attrib: "(string \<times> string) list") (children: "xml list")

text \<open>Every exception the modelled code can raise is a value.\<close>

datatype error =
    XmlElementAttributeNotFound string
  | FileNotFoundError string
  | IndexError
  | AttributeError string
  | TypeError
  | NotImplementedError
  | SystemExit
  | Exception string
  | UnresolvableSourceError string
  | ExternalError string

text \<open>
  The external calls made on behalf of one \<open>Manifest\<close> instance, in the order they
  happen (the call-count probe of the testable properties), and the effects of \<open>main\<close>
  on the machine: the document written, the update pended, the restart.
\<close>

datatype event =
    ReadFile string
  | ApplyDelta bytes
  | LoadXmlFromBuffer bytes
  | FindChildElements string
  | PrintWhatIsInHere
  | WriteXml string xml
  | PendUpdate string
  | RestartSystem int

text \<open>A \<open>Path\<close> object (\<open>filesystem_utils\<close>), as far as the code reads it.\<close>

record path =
  full_path :: string

text \<open>
  The collaborators that the two source files import from modules outside the sources,
  and the two \<open>os.path\<close> functions, which depend on the platform and on the live
  environment, are parameters.  \<open>apply_delta\<close> is called with the constant flag
  \<open>DELTA_FLAG_NONE\<close>, the base and the patch; \<open>base_manifest\<close> is the class attribute
  \<open>BASE_MANIFEST\<close>, evaluated once when the class is defined.  \<open>Path\<close> is the
  constructor of the path objects, \<open>get_empty_pending_xml\<close> the document that
  \<open>update_utils\<close> hands out, and \<open>component_file_path\<close> the archived file that a
  component (by name) holds for a destination path.
\<close>

record env =
  read_file :: "string \<Rightarrow> error + bytes"
  base_manifest :: bytes
  apply_delta :: "bytes \<Rightarrow> bytes \<Rightarrow> error + bytes"
  load_xml_from_buffer :: "bytes \<Rightarrow> error + xml"
  expandvars :: "string \<Rightarrow> string"
  normpath :: "string \<Rightarrow> string"
  load_xml :: "string \<Rightarrow> error + xml"
  is_path_exists :: "string \<Rightarrow> bool"
  Path :: "string \<Rightarrow> path"
  get_empty_pending_xml :: xml
  component_file_path :: "string \<Rightarrow> string \<Rightarrow> string"

text \<open>
  \<open>xml_utils\<close> is not among the sources.  \<open>find_child_elements_by_match\<close> is modelled
  as \<open>findall\<close> on a path of tags (\<^verbatim>\<open>./UpdateFilesList/UpdateFile\<close> is the path
  \<open>[''UpdateFilesList'', ''UpdateFile'']\<close>, a single tag is a path of one step): each
  step keeps the children that carry the tag, in document order.
  \<open>get_element_attribute\<close> raises \<open>XmlElementAttributeNotFound\<close> for an absent
  attribute (the exception \<open>get_manifest_files\<close> catches).  \<open>create_element\<close> makes an
  element without children and \<open>append_child_element\<close> adds a last child.
\<close>

fun find_path :: "xml list \<Rightarrow> string list \<Rightarrow> xml list" where
  "find_path es [] = es"
| "find_path es (t # ts) = find_path (filter (\<lambda>c. tag c = t) (concat (map children es))) ts"

definition find_child_elements_by_match :: "xml \<Rightarrow> string list \<Rightarrow> xml list" where
  "find_child_elements_by_match root steps = find_path [root] steps"

definition create_element :: "string \<Rightarrow> (string \<times> string) list \<Rightarrow> xml" where
  "create_element t d = Element t d []"

definition append_child_element :: "xml \<Rightarrow> xml \<Rightarrow> xml" where
  "append_child_element parent child = Element (tag parent) (attrib parent) (children parent @ [child])"

definition get_element_attribute :: "xml \<Rightarrow> string \<Rightarrow> error + string" where
  "get_element_attribute e a =
     (case map_of (attrib e) a of
        None \<Rightarrow> Inl (XmlElementAttributeNotFound a)
      | Some v \<Rightarrow> Inr v)"

section \<open>\<open>manifest_utils.Manifest\<close>\<close>

definition DCM_HEADER :: bytes where
  "DCM_HEADER = [0x44, 0x43, 0x4D, 0x01]"

definition COMPONENT_STORE_MANIFESTS_PATH :: string where
  "COMPONENT_STORE_MANIFESTS_PATH = ''%SystemRoot%'' @ [backslash] @ ''WinSxS'' @ [backslash] @ ''Manifests'' @ [backslash]"

definition PACKAGE_VARIABLES :: "(string \<times> string) list" where
  "PACKAGE_VARIABLES =
    [(''runtime.programfilesx86'', ''%ProgramFiles(x86)%''),
     (''runtime.help'', ''%SystemRoot%'' @ [backslash] @ ''Help''),
     (''runtime.bootdrive'', ''%SystemDrive%''),
     (''runtime.systemroot'', ''%SystemRoot%''),
     (''runtime.inf'', ''%SystemRoot%'' @ [backslash] @ ''INF''),
     (''runtime.commonfiles'', ''%CommonProgramFiles%''),
     (''runtime.windows'', ''%SystemRoot%''),
     (''runtime.public'', ''%Public%''),
     (''runtime.system'', ''%SystemRoot%'' @ [backslash] @ ''System''),
     (''runtime.programdata'', ''%ProgramData%''),
     (''runtime.wbem'', ''%SystemRoot%'' @ [backslash] @ ''System32'' @ [backslash] @ ''wbem''),
     (''runtime.startmenu'', ''%ProgramData%'' @ [backslash] @ ''Microsoft'' @ [backslash]
        @ ''Windows'' @ [backslash] @ ''Start Menu''),
     (''runtime.fonts'', ''%SystemRoot%'' @ [backslash] @ ''Fonts''),
     (''runtime.windir'', ''%SystemRoot%''),
     (''runtime.system32'', ''%SystemRoot%'' @ [backslash] @ ''System32''),
     (''runtime.programfiles'', ''%ProgramFiles%''),
     (''runtime.drivers'', ''%SystemRoot%'' @ [backslash] @ ''System32'' @ [backslash] @ ''Drivers'')]"

text \<open>
  The instance fields.  The three caches start as \<open>None\<close>.  \<open>probe\<close> is not a field
  of the class: it records the external calls made through the instance.
\<close>

record manifest =
  manifest_name :: string
  manifest_path :: string
  manifest_buffer :: "bytes option"
  manifest_xml :: "xml option"
  manifest_files :: "string list option"
  probe :: "event list"

definition Manifest_init :: "string \<Rightarrow> manifest" where
  "Manifest_init n =
     \<lparr>manifest_name = n,
      manifest_path = COMPONENT_STORE_MANIFESTS_PATH @ [backslash] @ n @ ''.manifest'',
      manifest_buffer = None,
      manifest_xml = None,
      manifest_files = None,
      probe = []\<rparr>"

text \<open>
  Python truth values of the cache fields: \<open>None\<close>, \<open>b""\<close> and \<open>[]\<close> are false.
  \<open>load_xml_from_buffer\<close> is annotated to return an \<open>ElementTree\<close>, which defines
  neither \<open>__bool__\<close> nor \<open>__len__\<close>, so a document is always true.
\<close>

definition falsy :: "'a list option \<Rightarrow> bool" where
  "falsy v = (case v of None \<Rightarrow> True | Some xs \<Rightarrow> xs = [])"

definition startswith :: "'a list \<Rightarrow> 'a list \<Rightarrow> bool" where
  "startswith b h = (take (length h) b = h)"

subsection \<open>\<open>get_manifest_buffer\<close>, \<open>_is_manifest_diff_type\<close>, \<open>_decompress_manifest\<close>\<close>

text \<open>
  The three methods call each other and the recursion is not bounded by the data, so
  each takes the number of call frames still available; \<open>None\<close> means that the call
  did not return within that depth.  A result is the value or the exception, with the
  instance as the call left it.  \<open>get_manifest_buffer\<close> returns the field itself,
  which Python types as optional.
\<close>

fun get_manifest_buffer :: "nat \<Rightarrow> env \<Rightarrow> manifest \<Rightarrow> ((error + bytes option) \<times> manifest) option"
  and is_manifest_diff_type :: "nat \<Rightarrow> env \<Rightarrow> manifest \<Rightarrow> ((error + bool) \<times> manifest) option"
  and decompress_manifest :: "nat \<Rightarrow> env \<Rightarrow> manifest \<Rightarrow> ((error + bytes) \<times> manifest) option"
where
  "get_manifest_buffer 0 env m = None"
| "get_manifest_buffer (Suc n) env m =
     (if falsy (manifest_buffer m) then
        (case read_file env (manifest_path m) of
           Inl e \<Rightarrow> Some (Inl e, m\<lparr>probe := probe m @ [ReadFile (manifest_path m)]\<rparr>)
         | Inr raw \<Rightarrow>
             (case is_manifest_diff_type n env
                     (m\<lparr>manifest_buffer := Some raw,
                        probe := probe m @ [ReadFile (manifest_path m)]\<rparr>) of
                None \<Rightarrow> None
              | Some (Inl e, m2) \<Rightarrow> Some (Inl e, m2)
              | Some (Inr d, m2) \<Rightarrow>
                  if d then
                    (case decompress_manifest n env m2 of
                       None \<Rightarrow> None
                     | Some (Inl e, m3) \<Rightarrow> Some (Inl e, m3)
                     | Some (Inr out, m3) \<Rightarrow>
                         Some (Inr (Some out), m3\<lparr>manifest_buffer := Some out\<rparr>))
                  else Some (Inr (manifest_buffer m2), m2)))
      else Some (Inr (manifest_buffer m), m))"
| "is_manifest_diff_type 0 env m = None"
| "is_manifest_diff_type (Suc n) env m =
     (case get_manifest_buffer n env m of
        None \<Rightarrow> None
      | Some (Inl e, m1) \<Rightarrow> Some (Inl e, m1)
      | Some (Inr None, m1) \<Rightarrow> Some (Inl (AttributeError ''startswith''), m1)
      | Some (Inr (Some b), m1) \<Rightarrow> Some (Inr (startswith b DCM_HEADER), m1))"
| "decompress_manifest 0 env m = None"
| "decompress_manifest (Suc n) env m =
     (case get_manifest_buffer n env m of
        None \<Rightarrow> None
      | Some (Inl e, m1) \<Rightarrow> Some (Inl e, m1)
      | Some (Inr None, m1) \<Rightarrow> Some (Inl TypeError, m1)
      | Some (Inr (Some b), m1) \<Rightarrow>
          (case apply_delta env (base_manifest env) (drop 4 b) of
             Inl e \<Rightarrow> Some (Inl e, m1\<lparr>probe := probe m1 @ [ApplyDelta (drop 4 b)]\<rparr>)
           | Inr out \<Rightarrow> Some (Inr out, m1\<lparr>probe := probe m1 @ [ApplyDelta (drop 4 b)]\<rparr>)))"

subsection \<open>\<open>get_manifest_xml\<close>\<close>

fun get_manifest_xml :: "nat \<Rightarrow> env \<Rightarrow> manifest \<Rightarrow> ((error + xml) \<times> manifest) option" where
  "get_manifest_xml 0 env m = None"
| "get_manifest_xml (Suc n) env m =
     (case manifest_xml m of
        Some x \<Rightarrow> Some (Inr x, m)
      | None \<Rightarrow>
          (case get_manifest_buffer n env m of
             None \<Rightarrow> None
           | Some (Inl e, m1) \<Rightarrow> Some (Inl e, m1)
           | Some (Inr None, m1) \<Rightarrow> Some (Inl TypeError, m1)
           | Some (Inr (Some b), m1) \<Rightarrow>
               (case load_xml_from_buffer env b of
                  Inl e \<Rightarrow> Some (Inl e, m1\<lparr>probe := probe m1 @ [LoadXmlFromBuffer b]\<rparr>)
                | Inr x \<Rightarrow>
                    Some (Inr x, m1\<lparr>manifest_xml := Some x,
                                     probe := probe m1 @ [LoadXmlFromBuffer b]\<rparr>))))"

subsection \<open>\<open>expand_manifest_path_variables\<close>\<close>

text \<open>
  \<open>str.lower\<close> on code points below 256: \<open>A\<close> to \<open>Z\<close> and the capital letters from
  U+00C0 to U+00DE (all but the multiplication sign U+00D7) move up by 32; every other
  character stays, the sharp s U+00DF among them.  The result is taken character by
  character.
\<close>

definition lower_char :: "char \<Rightarrow> char" where
  "lower_char c =
     (if (65 \<le> (of_char c :: nat) \<and> (of_char c :: nat) \<le> 90) \<or>
         (192 \<le> (of_char c :: nat) \<and> (of_char c :: nat) \<le> 222 \<and> (of_char c :: nat) \<noteq> 215)
      then char_of ((of_char c :: nat) + 32) else c)"

definition py_lower :: "string \<Rightarrow> string" where
  "py_lower s = map lower_char s"



text \<open>
  One attempt of the pattern \<^verbatim>\<open>\$\(([^)]+)\)\<close> at the start of a string.  The class
  \<^verbatim>\<open>[^)]+\<close> is greedy and takes the longest run without a closing parenthesis;
  a shorter run is followed by a character of the run, so backtracking finds nothing
  more.  The attempt succeeds when the run is not empty and a closing parenthesis
  follows; it gives group 1 and the text after the match.
\<close>

definition match_token :: "string \<Rightarrow> (string \<times> string) option" where
  "match_token s =
     (case s of
        c # d # r \<Rightarrow>
          if c = CHR ''$'' \<and> d = CHR ''('' then
            (let name = takeWhile (\<lambda>x. x \<noteq> CHR '')'') r;
                 rest = dropWhile (\<lambda>x. x \<noteq> CHR '')'') r
             in if name \<noteq> [] \<and> rest \<noteq> [] then Some (name, tl rest) else None)
          else None
      | _ \<Rightarrow> None)"

definition full_name :: "string \<Rightarrow> string" where
  "full_name name = ''$('' @ name @ '')''"

text \<open>The inner function \<open>replace\<close>: group 1 in lower case is looked up, group 0 is the default.\<close>

definition replace :: "string \<Rightarrow> string" where
  "replace name =
     (case map_of PACKAGE_VARIABLES (py_lower name) of
        Some v \<Rightarrow> v
      | None \<Rightarrow> full_name name)"

lemma match_token_Some:
  assumes "match_token s = Some (name, rest)"
  shows "s = full_name name @ rest" and "name \<noteq> []" and "CHR '')'' \<notin> set name"
proof -
  from assms obtain r where s: "s = CHR ''$'' # CHR ''('' # r"
    by (auto simp: match_token_def split: list.splits if_splits)
  let ?p = "\<lambda>x. x \<noteq> CHR '')''"
  from assms s have n: "name = takeWhile ?p r" and ne: "name \<noteq> []"
    and d: "dropWhile ?p r \<noteq> []" and t: "rest = tl (dropWhile ?p r)"
    by (auto simp: match_token_def Let_def split: if_splits)
  from d have "hd (dropWhile ?p r) = CHR '')''"
    using hd_dropWhile [of ?p r] by auto
  with d t have "dropWhile ?p r = CHR '')'' # rest"
    by (cases "dropWhile ?p r") auto
  then have "r = name @ CHR '')'' # rest"
    using takeWhile_dropWhile_id [of ?p r] n by simp
  with s show "s = full_name name @ rest" by (simp add: full_name_def)
  show "name \<noteq> []" by (fact ne)
  show "CHR '')'' \<notin> set name"
    using n set_takeWhileD [of "CHR '')''" ?p r] by auto
qed

text \<open>
  \<open>re.sub\<close> with that pattern: the string is scanned from the left; a match is
  replaced and the scan goes on after it, any other character is copied.  The pattern
  matches no empty string.
\<close>

function re_sub :: "string \<Rightarrow> string" where
  "re_sub [] = []"
| "re_sub (c # cs) =
     (case match_token (c # cs) of
        Some (name, rest) \<Rightarrow> replace name @ re_sub rest
      | None \<Rightarrow> c # re_sub cs)"
  by pat_completeness auto
termination
proof (relation "measure length")
  show "wf (measure length)" by simp
next
  fix c cs x2 x y
  assume "match_token (c # cs) = Some x2" and "(x, y) = x2"
  then have "match_token (c # cs) = Some (x, y)" by simp
  from match_token_Some(1) [OF this] show "(y, c # cs) \<in> measure length"
    by (simp add: full_name_def)
next
  fix c :: char and cs
  show "(cs, c # cs) \<in> measure length" by simp
qed

definition expand_manifest_path_variables :: "env \<Rightarrow> string \<Rightarrow> string" where
  "expand_manifest_path_variables env str_to_expand = expandvars env (re_sub str_to_expand)"

subsection \<open>\<open>get_manifest_files\<close> and \<open>is_file_in_manifest_files\<close>\<close>

definition file_tag :: string where
  "file_tag = ''{urn:schemas-microsoft-com:asm.v3}file''"

text \<open>The body of the \<open>try\<close> block for one file element.\<close>

definition file_element_path :: "env \<Rightarrow> xml \<Rightarrow> error + string" where
  "file_element_path env file_element =
     (case get_element_attribute file_element ''destinationPath'' of
        Inl e \<Rightarrow> Inl e
      | Inr update_dir_path \<Rightarrow>
          (case get_element_attribute file_element ''name'' of
             Inl e \<Rightarrow> Inl e
           | Inr update_file_name \<Rightarrow>
               Inr (normpath env
                      (expand_manifest_path_variables env update_dir_path
                         @ [backslash] @ update_file_name))))"

text \<open>
  The \<open>for\<close> loop over the file elements, with the list built so far and the lines
  printed so far.  Only \<open>XmlElementAttributeNotFound\<close> is caught; any other exception
  leaves the loop.
\<close>

fun manifest_files_loop ::
  "env \<Rightarrow> xml list \<Rightarrow> string list \<Rightarrow> event list \<Rightarrow> (error + string list) \<times> event list" where
  "manifest_files_loop env [] acc out = (Inr acc, out)"
| "manifest_files_loop env (fe # fes) acc out =
     (case file_element_path env fe of
        Inr p \<Rightarrow> manifest_files_loop env fes (acc @ [p]) out
      | Inl (XmlElementAttributeNotFound a) \<Rightarrow>
          manifest_files_loop env fes acc (out @ [PrintWhatIsInHere])
      | Inl e \<Rightarrow> (Inl e, out))"

fun get_manifest_files :: "nat \<Rightarrow> env \<Rightarrow> manifest \<Rightarrow> ((error + string list) \<times> manifest) option" where
  "get_manifest_files 0 env m = None"
| "get_manifest_files (Suc n) env m =
     (if falsy (manifest_files m) then
        (case get_manifest_xml n env (m\<lparr>manifest_files := Some []\<rparr>) of
           None \<Rightarrow> None
         | Some (Inl e, m1) \<Rightarrow> Some (Inl e, m1)
         | Some (Inr x, m1) \<Rightarrow>
             (case manifest_files_loop env (find_child_elements_by_match x [file_tag]) []
                     (probe m1 @ [FindChildElements file_tag]) of
                (Inl e, out) \<Rightarrow> Some (Inl e, m1\<lparr>probe := out\<rparr>)
              | (Inr fs, out) \<Rightarrow>
                  Some (Inr fs, m1\<lparr>manifest_files := Some fs, probe := out\<rparr>)))
      else (case manifest_files m of
              Some fs \<Rightarrow> Some (Inr fs, m)
            | None \<Rightarrow> Some (Inl TypeError, m)))"

text \<open>The search loop of \<open>is_file_in_manifest_files\<close>, which returns at the first hit.\<close>

fun search_manifest_files :: "string list \<Rightarrow> string \<Rightarrow> bool" where
  "search_manifest_files [] file_to_search = False"
| "search_manifest_files (manifest_file # rest) file_to_search =
     (if py_lower manifest_file = py_lower file_to_search then True
      else search_manifest_files rest file_to_search)"

fun is_file_in_manifest_files ::
  "nat \<Rightarrow> env \<Rightarrow> manifest \<Rightarrow> string \<Rightarrow> ((error + bool) \<times> manifest) option" where
  "is_file_in_manifest_files 0 env m file_to_search = None"
| "is_file_in_manifest_files (Suc n) env m file_to_search =
     (case get_manifest_files n env m of
        None \<Rightarrow> None
      | Some (Inl e, m1) \<Rightarrow> Some (Inl e, m1)
      | Some (Inr fs, m1) \<Rightarrow> Some (Inr (search_manifest_files fs file_to_search), m1))"

section \<open>\<open>windows_downdate.py\<close>\<close>

definition DOWNGRADE_XML_PATH :: string where
  "DOWNGRADE_XML_PATH = ''resources'' @ [backslash] @ ''Downgrade.xml''"

text \<open>
  Modelled from the spec: the class \<open>UpdateFile\<close> (\<open>update_file\<close> is not among the
  sources).  The constructor takes the source, the destination, whether the source is
  to be found in the component archive, and a flag that \<open>parse_config_xml\<close> always
  passes as \<open>False\<close> (the spec's \<open>persisted\<close>).  \<open>to_hardlink_dict\<close> names the two
  absolute paths of the replacement operation.
\<close>

record update_file =
  source :: path
  destination :: path
  should_retrieve_oldest :: bool
  persisted :: bool

definition to_hardlink_dict :: "update_file \<Rightarrow> (string \<times> string) list" where
  "to_hardlink_dict u =
     [(''source'', full_path (source u)), (''destination'', full_path (destination u))]"

text \<open>
  Modelled from the spec: \<open>is_file_contents_equal\<close> (\<open>filesystem_utils\<close> is not among
  the sources) reads the full byte content of both files and compares it; a file that
  cannot be read raises.
\<close>

definition is_file_contents_equal :: "env \<Rightarrow> string \<Rightarrow> string \<Rightarrow> error + bool" where
  "is_file_contents_equal env a b =
     (case read_file env a of
        Inl e \<Rightarrow> Inl e
      | Inr x \<Rightarrow> (case read_file env b of Inl e \<Rightarrow> Inl e | Inr y \<Rightarrow> Inr (x = y)))"

subsection \<open>\<open>parse_config_xml\<close>\<close>

fun parse_config_loop :: "env \<Rightarrow> xml list \<Rightarrow> update_file list \<Rightarrow> error + update_file list" where
  "parse_config_loop env [] update_files = Inr update_files"
| "parse_config_loop env (e # rest) update_files =
     (case get_element_attribute e ''destination'' of
        Inl err \<Rightarrow> Inl err
      | Inr destination_file \<Rightarrow>
          if \<not> is_path_exists env (full_path (Path env destination_file))
          then Inl (FileNotFoundError (full_path (Path env destination_file)))
          else
            (case get_element_attribute e ''source'' of
               Inl err \<Rightarrow> Inl err
             | Inr source_file \<Rightarrow>
                 parse_config_loop env rest
                   (update_files @
                      [\<lparr>source = Path env source_file,
                        destination = Path env destination_file,
                        should_retrieve_oldest =
                          (\<not> is_path_exists env (full_path (Path env source_file))),
                        persisted = False\<rparr>])))"

definition parse_config_xml :: "env \<Rightarrow> string \<Rightarrow> error + update_file list" where
  "parse_config_xml env config_file_path =
     (case load_xml env config_file_path of
        Inl err \<Rightarrow> Inl err
      | Inr config_xml \<Rightarrow>
          parse_config_loop env
            (find_child_elements_by_match config_xml [''UpdateFilesList'', ''UpdateFile'']) [])"

subsection \<open>\<open>craft_downgrade_xml\<close>\<close>

text \<open>The loop, with the element \<open>poq_element\<close> as it stands after each iteration.\<close>

fun craft_loop :: "env \<Rightarrow> xml \<Rightarrow> update_file list \<Rightarrow> error + xml" where
  "craft_loop env poq_element [] = Inr poq_element"
| "craft_loop env poq_element (u # rest) =
     (case is_file_contents_equal env (full_path (source u)) (full_path (destination u)) of
        Inl err \<Rightarrow> Inl err
      | Inr same \<Rightarrow>
          if same then craft_loop env poq_element rest
          else craft_loop env
                 (append_child_element poq_element
                    (create_element ''HardlinkFile'' (to_hardlink_dict u)))
                 rest)"

text \<open>
  \<open>poq_element\<close> is the first \<open>POQ\<close> child of the document itself, so the children
  appended to it are in the document that is returned: the first \<open>POQ\<close> child of the
  root is the element the loop has built.
\<close>

fun replace_first :: "('a \<Rightarrow> bool) \<Rightarrow> 'a \<Rightarrow> 'a list \<Rightarrow> 'a list" where
  "replace_first P y [] = []"
| "replace_first P y (x # xs) = (if P x then y # xs else x # replace_first P y xs)"

definition craft_downgrade_xml :: "env \<Rightarrow> update_file list \<Rightarrow> error + xml" where
  "craft_downgrade_xml env update_files =
     (case find_child_elements_by_match (get_empty_pending_xml env) [''POQ''] of
        [] \<Rightarrow> Inl IndexError
      | poq_element # _ \<Rightarrow>
          (case craft_loop env poq_element update_files of
             Inl err \<Rightarrow> Inl err
           | Inr poq' \<Rightarrow>
               Inr (Element (tag (get_empty_pending_xml env)) (attrib (get_empty_pending_xml env))
                      (replace_first (\<lambda>c. tag c = ''POQ'') poq'
                         (children (get_empty_pending_xml env))))))"

subsection \<open>The resolver\<close>

text \<open>
  Modelled from the spec: \<open>OldestVersionResolver.resolveSource\<close>
  (\<open>component_store_utils\<close>, which defines \<open>retrieve_oldest_files_for_update_files\<close>,
  is not among the sources).  The components of the archive are enumerated in the
  archive's order; each one's manifest is asked whether it contains the destination
  path; the path associated with the first one that does is returned; when none
  does, resolution fails.  A manifest that cannot be loaded is fatal.
\<close>

fun resolveSource :: "nat \<Rightarrow> env \<Rightarrow> manifest list \<Rightarrow> string \<Rightarrow> (error + string) option" where
  "resolveSource n env [] destinationPath = Some (Inl (UnresolvableSourceError destinationPath))"
| "resolveSource n env (c # cs) destinationPath =
     (case is_file_in_manifest_files n env c destinationPath of
        None \<Rightarrow> None
      | Some (Inl e, _) \<Rightarrow> Some (Inl e)
      | Some (Inr found, _) \<Rightarrow>
          if found then Some (Inr (component_file_path env (manifest_name c) destinationPath))
          else resolveSource n env cs destinationPath)"

text \<open>
  Modelled from the spec: \<open>retrieve_oldest_files_for_update_files\<close> invokes the
  resolver once for every update file that needs resolution and puts the path found
  in its source; the first failure ends the run.
\<close>

fun retrieve_oldest_files_for_update_files ::
  "nat \<Rightarrow> env \<Rightarrow> manifest list \<Rightarrow> update_file list \<Rightarrow> (error + update_file list) option" where
  "retrieve_oldest_files_for_update_files n env archive [] = Some (Inr [])"
| "retrieve_oldest_files_for_update_files n env archive (u # us) =
     (if should_retrieve_oldest u then
        (case resolveSource n env archive (full_path (destination u)) of
           None \<Rightarrow> None
         | Some (Inl e) \<Rightarrow> Some (Inl e)
         | Some (Inr p) \<Rightarrow>
             (case retrieve_oldest_files_for_update_files n env archive us of
                None \<Rightarrow> None
              | Some (Inl e) \<Rightarrow> Some (Inl e)
              | Some (Inr us') \<Rightarrow> Some (Inr (u\<lparr>source := Path env p\<rparr> # us'))))
      else
        (case retrieve_oldest_files_for_update_files n env archive us of
           None \<Rightarrow> None
         | Some (Inl e) \<Rightarrow> Some (Inl e)
         | Some (Inr us') \<Rightarrow> Some (Inr (u # us'))))"

subsection \<open>\<open>parse_args\<close> and \<open>main\<close>\<close>

text \<open>
  The values of an \<open>argparse.Namespace\<close> and the namespace itself, a list of
  attributes.  Reading an attribute that the namespace does not have raises
  \<open>AttributeError\<close>.
\<close>

datatype pyval = PyNone | PyStr string | PyBool bool | PyInt int

type_synonym namespace = "(string \<times> pyval) list"

definition getattr :: "namespace \<Rightarrow> string \<Rightarrow> error + pyval" where
  "getattr args a = (case map_of args a of None \<Rightarrow> Inl (AttributeError a) | Some v \<Rightarrow> Inr v)"

definition truthy :: "pyval \<Rightarrow> bool" where
  "truthy v = (case v of PyNone \<Rightarrow> False | PyStr s \<Rightarrow> s \<noteq> [] | PyBool b \<Rightarrow> b | PyInt i \<Rightarrow> i \<noteq> 0)"

definition py_str :: "pyval \<Rightarrow> error + string" where
  "py_str v = (case v of PyStr s \<Rightarrow> Inr s | _ \<Rightarrow> Inl TypeError)"

definition py_opt_str :: "string option \<Rightarrow> pyval" where
  "py_opt_str v = (case v of None \<Rightarrow> PyNone | Some s \<Rightarrow> PyStr s)"

text \<open>
  The command line as the options it gives.  \<open>parse_args\<close> names every attribute
  after its option: \<^verbatim>\<open>--config-xml\<close> is stored as \<open>config_xml\<close>.  Exactly one of
  \<^verbatim>\<open>--config-xml\<close> and \<^verbatim>\<open>--custom-pending-xml\<close> is required, and
  \<^verbatim>\<open>--force-restart\<close> is required when the word \<^verbatim>\<open>--restart-timeout\<close> is one of
  the arguments (\<open>argv_restart_timeout\<close>); otherwise the parser exits.
\<close>

record command_line =
  opt_config_xml :: "string option"
  opt_custom_pending_xml :: "string option"
  opt_force_restart :: bool
  opt_restart_timeout :: "int option"
  argv_restart_timeout :: bool
  opt_elevate :: bool
  opt_invisible :: bool
  opt_persistent :: bool
  opt_irreversible :: bool

definition parse_args :: "command_line \<Rightarrow> error + namespace" where
  "parse_args c =
     (if (opt_config_xml c = None) = (opt_custom_pending_xml c = None) then Inl SystemExit
      else if argv_restart_timeout c \<and> \<not> opt_force_restart c then Inl SystemExit
      else Inr
        [(''config_xml'', py_opt_str (opt_config_xml c)),
         (''custom_pending_xml'', py_opt_str (opt_custom_pending_xml c)),
         (''force_restart'', PyBool (opt_force_restart c)),
         (''restart_timeout'', PyInt (case opt_restart_timeout c of None \<Rightarrow> 10 | Some t \<Rightarrow> t)),
         (''elevate'', PyBool (opt_elevate c)),
         (''invisible'', PyBool (opt_invisible c)),
         (''persistent'', PyBool (opt_persistent c)),
         (''irreversible'', PyBool (opt_irreversible c))])"

text \<open>
  Lines 125 to 144 of \<open>main\<close>: the four feature flags, then \<open>pend_update\<close> and the
  restart.  The state is the list of effects on the machine so far.
\<close>

definition main_pend :: "namespace \<Rightarrow> string \<Rightarrow> event list \<Rightarrow> (error + unit) \<times> event list" where
  "main_pend args downgrade_xml_path w =
     (case getattr args ''invisible'' of
        Inl e \<Rightarrow> (Inl e, w)
      | Inr invisible \<Rightarrow>
     if truthy invisible then (Inl NotImplementedError, w) else
     (case getattr args ''persistent'' of
        Inl e \<Rightarrow> (Inl e, w)
      | Inr persistent \<Rightarrow>
     if truthy persistent then (Inl NotImplementedError, w) else
     (case getattr args ''irreversible'' of
        Inl e \<Rightarrow> (Inl e, w)
      | Inr irreversible \<Rightarrow>
     if truthy irreversible then (Inl NotImplementedError, w) else
     (case getattr args ''elevate'' of
        Inl e \<Rightarrow> (Inl e, w)
      | Inr elevate \<Rightarrow>
     if truthy elevate then (Inl NotImplementedError, w) else
     (case getattr args ''force_restart'' of
        Inl e \<Rightarrow> (Inl e, w @ [PendUpdate downgrade_xml_path])
      | Inr force_restart \<Rightarrow>
     if truthy force_restart then
       (case getattr args ''restart_timeout'' of
          Inl e \<Rightarrow> (Inl e, w @ [PendUpdate downgrade_xml_path])
        | Inr (PyInt t) \<Rightarrow> (Inr (), w @ [PendUpdate downgrade_xml_path, RestartSystem t])
        | Inr _ \<Rightarrow> (Inl TypeError, w @ [PendUpdate downgrade_xml_path]))
     else (Inr (), w @ [PendUpdate downgrade_xml_path]))))))"

text \<open>
  Lines 109 to 144 of \<open>main\<close>, on the namespace that \<open>parse_args\<close> returned.  The
  first statement reads the attribute \<open>config_file\<close>.
\<close>

definition main_body ::
  "nat \<Rightarrow> env \<Rightarrow> manifest list \<Rightarrow> namespace \<Rightarrow> event list \<Rightarrow> ((error + unit) \<times> event list) option" where
  "main_body n env archive args w =
     (case getattr args ''config_file'' of
        Inl e \<Rightarrow> Some (Inl e, w)
      | Inr config_file \<Rightarrow>
          if truthy config_file then
            (case py_str config_file of
               Inl e \<Rightarrow> Some (Inl e, w)
             | Inr cf \<Rightarrow>
                 if \<not> is_path_exists env cf
                 then Some (Inl (Exception ''Config.xml file does not exist''), w)
                 else
                   (case parse_config_xml env cf of
                      Inl e \<Rightarrow> Some (Inl e, w)
                    | Inr update_files \<Rightarrow>
                        (case retrieve_oldest_files_for_update_files n env archive update_files of
                           None \<Rightarrow> None
                         | Some (Inl e) \<Rightarrow> Some (Inl e, w)
                         | Some (Inr resolved) \<Rightarrow>
                             (case craft_downgrade_xml env resolved of
                                Inl e \<Rightarrow> Some (Inl e, w)
                              | Inr downgrade_xml \<Rightarrow>
                                  Some (main_pend args DOWNGRADE_XML_PATH
                                          (w @ [WriteXml DOWNGRADE_XML_PATH downgrade_xml]))))))
          else
            (case getattr args ''custom_pending_xml'' of
               Inl e \<Rightarrow> Some (Inl e, w)
             | Inr custom \<Rightarrow>
                 (case py_str custom of
                    Inl e \<Rightarrow> Some (Inl e, w)
                  | Inr p \<Rightarrow>
                      if \<not> is_path_exists env p
                      then Some (Inl (Exception ''Custom Pending.xml file does not exist''), w)
                      else Some (main_pend args p w))))"

text \<open>
  \<open>main\<close>: the command line is parsed, then the body works on the namespace.  Setting
  up the logger has no effect on the machine.
\<close>

definition main ::
  "nat \<Rightarrow> env \<Rightarrow> manifest list \<Rightarrow> command_line \<Rightarrow> event list \<Rightarrow> ((error + unit) \<times> event list) option" where
  "main n env archive c w =
     (case parse_args c of
        Inl e \<Rightarrow> Some (Inl e, w)
      | Inr args \<Rightarrow> main_body n env archive args w)"

section \<open>An example machine\<close>

text \<open>
  A small machine on which the theorems below are instantiated: the files it holds,
  with their contents, and the document every XML parse yields.  A patch is applied
  by appending it to the base, variables expand to themselves and paths are already
  normal.
\<close>

definition example_env :: "(string \<times> bytes) list \<Rightarrow> xml \<Rightarrow> env" where
  "example_env files doc =
     \<lparr>read_file = (\<lambda>p. case map_of files p of None \<Rightarrow> Inl (FileNotFoundError p) | Some b \<Rightarrow> Inr b),
      base_manifest = [0x3C],
      apply_delta = (\<lambda>base patch. Inr (base @ patch)),
      load_xml_from_buffer = (\<lambda>b. Inr doc),
      expandvars = (\<lambda>s. s),
      normpath = (\<lambda>s. s),
      load_xml = (\<lambda>p. Inr doc),
      is_path_exists = (\<lambda>p. map_of files p \<noteq> None),
      Path = (\<lambda>s. \<lparr>full_path = s\<rparr>),
      get_empty_pending_xml = Element ''PendingTransaction'' [] [Element ''POQ'' [] []],
      component_file_path = (\<lambda>c d. c @ [backslash] @ d)\<rparr>"

definition example_update_file :: "string \<Rightarrow> string \<Rightarrow> update_file" where
  "example_update_file s d =
     \<lparr>source = \<lparr>full_path = s\<rparr>, destination = \<lparr>full_path = d\<rparr>,
      should_retrieve_oldest = False, persisted = False\<rparr>"

section \<open>The queue document (\<open>craft_downgrade_xml\<close>)\<close>

lemma find_child_single:
  "find_child_elements_by_match root [t] = filter (\<lambda>c. tag c = t) (children root)"
  by (simp add: find_child_elements_by_match_def)

lemma filter_replace_first:
  "filter P xs = x # rest \<Longrightarrow> P y \<Longrightarrow> filter P (replace_first P y xs) = y # rest"
  by (induction xs) (auto split: if_splits)

text \<open>
  The entry of one pair, the pairs whose files differ, and the pairs both of whose
  files can be read (source and destination are resolved to files that exist).
\<close>

definition hardlink_element :: "update_file \<Rightarrow> xml" where
  "hardlink_element u =
     Element ''HardlinkFile''
       [(''source'', full_path (source u)), (''destination'', full_path (destination u))] []"

definition contents_differ :: "env \<Rightarrow> update_file \<Rightarrow> bool" where
  "contents_differ env u =
     (read_file env (full_path (source u)) \<noteq> read_file env (full_path (destination u)))"

definition readable :: "env \<Rightarrow> update_file \<Rightarrow> bool" where
  "readable env u =
     (\<not> isl (read_file env (full_path (source u))) \<and>
      \<not> isl (read_file env (full_path (destination u))))"

lemma craft_loop_filter:
  "list_all (readable env) us \<Longrightarrow>
   craft_loop env poq us =
     Inr (Element (tag poq) (attrib poq)
            (children poq @ map hardlink_element (filter (contents_differ env) us)))"
proof (induction us arbitrary: poq)
  case Nil
  show ?case by simp
next
  case (Cons u us)
  from Cons.prems obtain x y where
    x: "read_file env (full_path (source u)) = Inr x" and
    y: "read_file env (full_path (destination u)) = Inr y"
    by (auto simp: readable_def isl_def) (metis sum.exhaust)
  from Cons.prems have rest: "list_all (readable env) us" by simp
  show ?case
  proof (cases "x = y")
    case True
    with x y have "\<not> contents_differ env u" by (simp add: contents_differ_def)
    with True x y Cons.IH [OF rest] show ?thesis
      by (simp add: is_file_contents_equal_def)
  next
    case False
    with x y have "contents_differ env u" by (simp add: contents_differ_def)
    with False x y Cons.IH [OF rest] show ?thesis
      by (simp add: is_file_contents_equal_def append_child_element_def create_element_def
          to_hardlink_dict_def hardlink_element_def)
  qed
qed

text \<open>
  C1.  When every update file's source and destination can be read, and the empty
  pending document has a \<open>POQ\<close> element, \<open>craft_downgrade_xml\<close> returns a document
  whose first \<open>POQ\<close> element holds, after the children it had, one \<open>HardlinkFile\<close>
  entry naming source and destination for each pair whose contents differ, none for a
  pair whose contents are equal, in the order of the input list; the other \<open>POQ\<close>
  elements are as they were.
\<close>

theorem craft_downgrade_xml_entries:
  assumes "list_all (readable env) update_files"
    and "find_child_elements_by_match (get_empty_pending_xml env) [''POQ''] = poq # others"
  shows "\<exists>doc. craft_downgrade_xml env update_files = Inr doc \<and>
           find_child_elements_by_match doc [''POQ''] =
             Element ''POQ'' (attrib poq)
               (children poq @ map hardlink_element (filter (contents_differ env) update_files))
             # others"
proof -
  let ?root = "get_empty_pending_xml env"
  let ?poq' = "Element (tag poq) (attrib poq)
                 (children poq @ map hardlink_element (filter (contents_differ env) update_files))"
  from assms(2) have f: "filter (\<lambda>c. tag c = ''POQ'') (children ?root) = poq # others"
    by (simp add: find_child_single)
  then have "poq \<in> set (filter (\<lambda>c. tag c = ''POQ'') (children ?root))"
    by simp
  then have t: "tag poq = ''POQ''"
    by simp
  have "craft_downgrade_xml env update_files =
          Inr (Element (tag ?root) (attrib ?root)
                 (replace_first (\<lambda>c. tag c = ''POQ'') ?poq' (children ?root)))"
    using assms(2) craft_loop_filter [OF assms(1), of poq]
    by (simp add: craft_downgrade_xml_def)
  moreover have "filter (\<lambda>c. tag c = ''POQ'')
                   (replace_first (\<lambda>c. tag c = ''POQ'') ?poq' (children ?root)) = ?poq' # others"
    using f t by (intro filter_replace_first) simp_all
  ultimately show ?thesis using t by (simp add: find_child_single)
qed

text \<open>
  On the example machine, with files \<open>a\<close> and \<open>c\<close> of equal content and \<open>b\<close> of
  another: of the pairs \<open>(a, b)\<close>, \<open>(a, c)\<close>, \<open>(b, a)\<close> the first and the last are
  queued, in that order.
\<close>

theorem craft_downgrade_xml_entries_witness:
  "\<exists>doc.
     craft_downgrade_xml (example_env [(''a'', [1]), (''b'', [2]), (''c'', [1])] (Element [] [] []))
       [example_update_file ''a'' ''b'', example_update_file ''a'' ''c'',
        example_update_file ''b'' ''a''] = Inr doc \<and>
     find_child_elements_by_match doc [''POQ''] =
       [Element ''POQ'' []
          [Element ''HardlinkFile'' [(''source'', ''a''), (''destination'', ''b'')] [],
           Element ''HardlinkFile'' [(''source'', ''b''), (''destination'', ''a'')] []]]"
  using craft_downgrade_xml_entries
    [of "example_env [(''a'', [1]), (''b'', [2]), (''c'', [1])] (Element [] [] [])"
        "[example_update_file ''a'' ''b'', example_update_file ''a'' ''c'',
          example_update_file ''b'' ''a'']"
        "Element ''POQ'' [] []" "[]"]
  by (simp add: example_env_def example_update_file_def readable_def contents_differ_def
      hardlink_element_def find_child_single)

section \<open>The declarative input (\<open>parse_config_xml\<close>)\<close>

text \<open>
  A request whose destination attribute names a path that does not exist, and a
  request that carries both attributes of the input format.
\<close>

definition destination_missing :: "env \<Rightarrow> xml \<Rightarrow> bool" where
  "destination_missing env e =
     (case map_of (attrib e) ''destination'' of
        None \<Rightarrow> False
      | Some d \<Rightarrow> \<not> is_path_exists env (full_path (Path env d)))"

definition well_formed_request :: "xml \<Rightarrow> bool" where
  "well_formed_request e =
     (map_of (attrib e) ''destination'' \<noteq> None \<and> map_of (attrib e) ''source'' \<noteq> None)"

lemma parse_config_loop_aborts:
  "e \<in> set es \<Longrightarrow> destination_missing env e \<Longrightarrow> \<exists>err. parse_config_loop env es acc = Inl err"
proof (induction es arbitrary: acc)
  case Nil
  then show ?case by simp
next
  case (Cons h es)
  show ?case
  proof (cases "destination_missing env h")
    case True
    then show ?thesis
      by (auto simp: destination_missing_def get_element_attribute_def split: option.splits)
  next
    case False
    with Cons.prems have "e \<in> set es" by auto
    from Cons.IH [OF this Cons.prems(2)] show ?thesis
      by (auto simp: get_element_attribute_def split: option.splits)
  qed
qed

lemma parse_config_loop_first_missing:
  "list_all well_formed_request (takeWhile (\<lambda>e. \<not> destination_missing env e) es) \<Longrightarrow>
   find (destination_missing env) es = Some e0 \<Longrightarrow>
   map_of (attrib e0) ''destination'' = Some d0 \<Longrightarrow>
   parse_config_loop env es acc = Inl (FileNotFoundError (full_path (Path env d0)))"
proof (induction es arbitrary: acc)
  case Nil
  then show ?case by simp
next
  case (Cons h es)
  show ?case
  proof (cases "destination_missing env h")
    case True
    with Cons.prems have "h = e0" by simp
    with True Cons.prems(3) show ?thesis
      by (simp add: destination_missing_def get_element_attribute_def)
  next
    case False
    with Cons.prems have wf: "well_formed_request h"
      and rest: "list_all well_formed_request (takeWhile (\<lambda>e. \<not> destination_missing env e) es)"
      and f: "find (destination_missing env) es = Some e0"
      by simp_all
    from wf obtain d s where "map_of (attrib h) ''destination'' = Some d"
      and "map_of (attrib h) ''source'' = Some s"
      by (auto simp: well_formed_request_def)
    with False Cons.IH [OF rest f Cons.prems(3)] show ?thesis
      by (simp add: destination_missing_def get_element_attribute_def)
  qed
qed

lemma find_Some_attr:
  "find (destination_missing env) es = Some e0 \<Longrightarrow> \<exists>d0. map_of (attrib e0) ''destination'' = Some d0"
  by (auto simp: find_Some_iff destination_missing_def split: option.splits)

text \<open>
  C7.  When the configuration is loaded and one of its requests names a destination
  that does not exist, \<open>parse_config_xml\<close> raises and returns no list of update files.
  When the requests before the first such request carry both attributes, the
  exception is the \<open>FileNotFoundError\<close> for the path of that first request: the loop
  stops there and no later request is looked at.
\<close>

theorem parse_config_xml_missing_destination:
  assumes "load_xml env p = Inr config_xml"
    and "e \<in> set (find_child_elements_by_match config_xml [''UpdateFilesList'', ''UpdateFile''])"
    and "destination_missing env e"
  shows "(\<exists>err. parse_config_xml env p = Inl err) \<and>
         (list_all well_formed_request
            (takeWhile (\<lambda>e. \<not> destination_missing env e)
               (find_child_elements_by_match config_xml [''UpdateFilesList'', ''UpdateFile''])) \<longrightarrow>
          (\<exists>e0 d0.
             find (destination_missing env)
               (find_child_elements_by_match config_xml [''UpdateFilesList'', ''UpdateFile'']) = Some e0 \<and>
             map_of (attrib e0) ''destination'' = Some d0 \<and>
             parse_config_xml env p = Inl (FileNotFoundError (full_path (Path env d0)))))"
proof -
  let ?es = "find_child_elements_by_match config_xml [''UpdateFilesList'', ''UpdateFile'']"
  have unfold: "parse_config_xml env p = parse_config_loop env ?es []"
    using assms(1) by (simp add: parse_config_xml_def)
  from assms(2,3) obtain e0 where f: "find (destination_missing env) ?es = Some e0"
    by (cases "find (destination_missing env) ?es") (auto simp: find_None_iff)
  from find_Some_attr [OF f] obtain d0 where d0: "map_of (attrib e0) ''destination'' = Some d0" ..
  have "\<exists>err. parse_config_xml env p = Inl err"
    using parse_config_loop_aborts [OF assms(2,3)] unfold by simp
  moreover have "parse_config_xml env p = Inl (FileNotFoundError (full_path (Path env d0)))"
    if "list_all well_formed_request (takeWhile (\<lambda>e. \<not> destination_missing env e) ?es)"
    using parse_config_loop_first_missing [OF that f d0] unfold by simp
  ultimately show ?thesis using f d0 by blast
qed

text \<open>
  On the example machine the second of three requests names a file that does not
  exist.
\<close>

definition example_config :: xml where
  "example_config =
     Element ''Configuration'' []
       [Element ''UpdateFilesList'' []
          [Element ''UpdateFile'' [(''source'', ''a''), (''destination'', ''b'')] [],
           Element ''UpdateFile'' [(''source'', ''a''), (''destination'', ''gone'')] [],
           Element ''UpdateFile'' [(''source'', ''b''), (''destination'', ''a'')] []]]"

theorem parse_config_xml_missing_destination_witness:
  "parse_config_xml (example_env [(''a'', [1]), (''b'', [2])] example_config) ''Config.xml''
     = Inl (FileNotFoundError ''gone'')"
  using parse_config_xml_missing_destination
    [of "example_env [(''a'', [1]), (''b'', [2])] example_config" "''Config.xml''" example_config
        "Element ''UpdateFile'' [(''source'', ''a''), (''destination'', ''gone'')] []"]
  by (simp add: example_env_def example_config_def find_child_elements_by_match_def
      destination_missing_def well_formed_request_def)

section \<open>The manifest buffer (\<open>get_manifest_buffer\<close>)\<close>

text \<open>
  A filled cache is returned as it is.  On an instance whose cache is not filled, a
  file that is not empty is read once and either returned (no marker) or patched
  against the base (marker); three call frames are enough.
\<close>

lemma get_manifest_buffer_cached:
  "\<not> falsy (manifest_buffer m) \<Longrightarrow>
   get_manifest_buffer (Suc n) env m = Some (Inr (manifest_buffer m), m)"
  by simp

lemma get_manifest_buffer_plain:
  assumes "falsy (manifest_buffer m)" and "read_file env (manifest_path m) = Inr raw"
    and "raw \<noteq> []" and "\<not> startswith raw DCM_HEADER"
  shows "get_manifest_buffer (Suc (Suc (Suc n))) env m =
     Some (Inr (Some raw),
           m\<lparr>manifest_buffer := Some raw, probe := probe m @ [ReadFile (manifest_path m)]\<rparr>)"
  using assms by (simp add: falsy_def)

lemma get_manifest_buffer_diff:
  assumes "falsy (manifest_buffer m)" and "read_file env (manifest_path m) = Inr raw"
    and "startswith raw DCM_HEADER"
  shows "get_manifest_buffer (Suc (Suc (Suc n))) env m =
     (case apply_delta env (base_manifest env) (drop 4 raw) of
        Inl e \<Rightarrow>
          Some (Inl e, m\<lparr>manifest_buffer := Some raw,
                          probe := probe m @ [ReadFile (manifest_path m), ApplyDelta (drop 4 raw)]\<rparr>)
      | Inr out \<Rightarrow>
          Some (Inr (Some out),
                m\<lparr>manifest_buffer := Some out,
                  probe := probe m @ [ReadFile (manifest_path m), ApplyDelta (drop 4 raw)]\<rparr>))"
proof -
  from assms(3) have "raw \<noteq> []" by (auto simp: startswith_def DCM_HEADER_def)
  with assms show ?thesis by (simp add: falsy_def split: sum.splits)
qed

text \<open>
  An empty file leaves the cache false after the read, so the call that
  \<open>_is_manifest_diff_type\<close> makes reads the file again, and so on: no depth is enough.
\<close>

lemma empty_file_never_returns:
  "(\<forall>m. falsy (manifest_buffer m) \<longrightarrow> read_file env (manifest_path m) = Inr [] \<longrightarrow>
        get_manifest_buffer n env m = None) \<and>
   (\<forall>m. falsy (manifest_buffer m) \<longrightarrow> read_file env (manifest_path m) = Inr [] \<longrightarrow>
        is_manifest_diff_type n env m = None)"
proof (induction n)
  case 0
  show ?case by simp
next
  case (Suc n)
  have d: "is_manifest_diff_type (Suc n) env m = None"
    if "falsy (manifest_buffer m)" "read_file env (manifest_path m) = Inr []" for m
    using Suc that by simp
  have "get_manifest_buffer (Suc n) env m = None"
    if "falsy (manifest_buffer m)" "read_file env (manifest_path m) = Inr []" for m
  proof -
    let ?m1 = "m\<lparr>manifest_buffer := Some [], probe := probe m @ [ReadFile (manifest_path m)]\<rparr>"
    have "falsy (manifest_buffer ?m1)" by (simp add: falsy_def)
    moreover have "read_file env (manifest_path ?m1) = Inr []" using that by simp
    ultimately have "is_manifest_diff_type n env ?m1 = None" using Suc by blast
    with that show ?thesis by simp
  qed
  with d show ?case by blast
qed

lemma get_manifest_buffer_empty_file:
  "falsy (manifest_buffer m) \<Longrightarrow> read_file env (manifest_path m) = Inr [] \<Longrightarrow>
   get_manifest_buffer n env m = None"
  using empty_file_never_returns by blast

text \<open>The number of times the instance has read its file.\<close>

fun is_read :: "event \<Rightarrow> bool" where
  "is_read (ReadFile p) = True"
| "is_read e = False"

definition reads :: "manifest \<Rightarrow> nat" where
  "reads m = length (filter is_read (probe m))"

text \<open>
  C10.  On an instance whose buffer cache is not filled and whose file can be read:
  when the raw bytes are not empty, \<open>get_manifest_buffer\<close> returns (a value or the
  exception of the patch application) within three call frames and has read the file
  exactly once; when the raw bytes are empty, it returns at no depth.
\<close>

theorem get_manifest_buffer_terminates:
  assumes "falsy (manifest_buffer m)" and "read_file env (manifest_path m) = Inr raw"
  shows "(raw \<noteq> [] \<longrightarrow>
            (\<exists>r m'. get_manifest_buffer (Suc (Suc (Suc n))) env m = Some (r, m') \<and>
                     reads m' = Suc (reads m))) \<and>
         (raw = [] \<longrightarrow> (\<forall>k. get_manifest_buffer k env m = None))"
proof (intro conjI impI allI)
  assume ne: "raw \<noteq> []"
  show "\<exists>r m'. get_manifest_buffer (Suc (Suc (Suc n))) env m = Some (r, m') \<and>
                reads m' = Suc (reads m)"
  proof (cases "startswith raw DCM_HEADER")
    case True
    show ?thesis
      unfolding get_manifest_buffer_diff [OF assms True]
      by (cases "apply_delta env (base_manifest env) (drop 4 raw)") (simp_all add: reads_def)
  next
    case False
    show ?thesis
      unfolding get_manifest_buffer_plain [OF assms ne False]
      by (simp add: reads_def)
  qed
next
  fix k
  assume "raw = []"
  with assms show "get_manifest_buffer k env m = None"
    by (simp add: get_manifest_buffer_empty_file)
qed

text \<open>
  The example machine with one manifest in the archive: the raw bytes of its file and
  the document they parse to.
\<close>

definition example_manifest :: manifest where
  "example_manifest = Manifest_init ''m''"

definition example_archive_env :: "bytes \<Rightarrow> xml \<Rightarrow> env" where
  "example_archive_env raw doc = example_env [(manifest_path example_manifest, raw)] doc"

lemma example_read:
  "read_file (example_archive_env raw doc) (manifest_path example_manifest) = Inr raw"
  by (simp add: example_archive_env_def example_env_def)

lemma example_fresh: "falsy (manifest_buffer example_manifest)"
  by (simp add: example_manifest_def Manifest_init_def falsy_def)

text \<open>
  A differential file of five bytes is decoded after one read; an empty file never
  comes back.
\<close>

theorem get_manifest_buffer_terminates_witness:
  "(\<exists>r m'. get_manifest_buffer (Suc (Suc (Suc 0))) (example_archive_env [0x44, 0x43, 0x4D, 0x01, 0x07] (Element [] [] []))
              example_manifest = Some (r, m') \<and> reads m' = Suc (reads example_manifest)) \<and>
   (\<forall>k. get_manifest_buffer k (example_archive_env [] (Element [] [] [])) example_manifest = None)"
  using get_manifest_buffer_terminates
      [OF example_fresh example_read, where raw = "[0x44, 0x43, 0x4D, 0x01, 0x07]" and n = 0]
    get_manifest_buffer_terminates [OF example_fresh example_read, where raw = "[]"]
  by simp

text \<open>
  C2.  The decoder returns a raw buffer without the marker unchanged, and patches one
  with the marker (\<open>get_manifest_buffer_plain\<close>, \<open>get_manifest_buffer_diff\<close>), when the
  buffer is not empty.  The empty buffer does not start with the marker, and the
  claim has it returned unchanged; the code does not return on it, at any depth
  (Python ends the recursion with a \<open>RecursionError\<close>).
\<close>

theorem get_manifest_buffer_empty_raw_diverges:
  "get_manifest_buffer k (example_archive_env [] doc) example_manifest = None"
  by (rule get_manifest_buffer_empty_file [OF example_fresh example_read])

section \<open>The file list (\<open>get_manifest_files\<close>)\<close>

text \<open>A decoded document and a file list that is not empty are returned from the cache.\<close>

lemma get_manifest_xml_cached:
  "manifest_xml m = Some x \<Longrightarrow> get_manifest_xml (Suc n) env m = Some (Inr x, m)"
  by simp

lemma get_manifest_files_cached:
  "manifest_files m = Some fs \<Longrightarrow> fs \<noteq> [] \<Longrightarrow>
   get_manifest_files (Suc n) env m = Some (Inr fs, m)"
  by (simp add: falsy_def)

text \<open>
  The path that a file element declares: none when the directory or the name is
  absent, else the expanded directory joined with the name and normalised.
\<close>

definition declared_path :: "env \<Rightarrow> xml \<Rightarrow> string option" where
  "declared_path env fe =
     (case map_of (attrib fe) ''destinationPath'' of
        None \<Rightarrow> None
      | Some d \<Rightarrow>
          (case map_of (attrib fe) ''name'' of
             None \<Rightarrow> None
           | Some nm \<Rightarrow>
               Some (normpath env (expand_manifest_path_variables env d @ [backslash] @ nm))))"

lemma file_element_path_cases:
  "(\<exists>p. file_element_path env fe = Inr p \<and> declared_path env fe = Some p) \<or>
   (\<exists>a. file_element_path env fe = Inl (XmlElementAttributeNotFound a) \<and> declared_path env fe = None)"
  by (auto simp: file_element_path_def declared_path_def get_element_attribute_def
      split: option.splits)

lemma manifest_files_loop_map_filter:
  "\<exists>out'. manifest_files_loop env es acc out =
            (Inr (acc @ List.map_filter (declared_path env) es), out')"
proof (induction es arbitrary: acc out)
  case Nil
  show ?case by simp
next
  case (Cons fe es)
  from file_element_path_cases [of env fe] show ?case
  proof (elim disjE exE conjE)
    fix p
    assume "file_element_path env fe = Inr p" "declared_path env fe = Some p"
    with Cons.IH [of "acc @ [p]" out] show ?thesis
      by simp
  next
    fix a
    assume "file_element_path env fe = Inl (XmlElementAttributeNotFound a)"
      "declared_path env fe = None"
    with Cons.IH [of acc "out @ [PrintWhatIsInHere]"] show ?thesis
      by simp
  qed
qed

text \<open>
  C8.  On an instance whose file list is not cached and whose document is obtained,
  \<open>get_manifest_files\<close> raises nothing and returns, in document order, the declared
  path of every file element that has both attributes; the elements that lack one are
  left out and nothing else is.  The list is stored in the instance.
\<close>

theorem get_manifest_files_skips_partial:
  assumes "falsy (manifest_files m)"
    and "get_manifest_xml n env (m\<lparr>manifest_files := Some []\<rparr>) = Some (Inr x, m1)"
  shows "\<exists>m2. get_manifest_files (Suc n) env m =
                 Some (Inr (List.map_filter (declared_path env)
                              (find_child_elements_by_match x [file_tag])), m2) \<and>
              manifest_files m2 =
                 Some (List.map_filter (declared_path env)
                         (find_child_elements_by_match x [file_tag]))"
proof -
  obtain out' where
    "manifest_files_loop env (find_child_elements_by_match x [file_tag]) []
        (probe m1 @ [FindChildElements file_tag]) =
      (Inr ([] @ List.map_filter (declared_path env) (find_child_elements_by_match x [file_tag])), out')"
    using manifest_files_loop_map_filter by blast
  with assms show ?thesis by simp
qed

text \<open>
  A manifest with four file elements, the second without a name and the third
  without a directory, and one element of another kind.
\<close>

definition example_document :: xml where
  "example_document =
     Element ''assembly'' []
       [Element file_tag [(''destinationPath'', ''$(runtime.Windows)''), (''name'', ''a.dll'')] [],
        Element file_tag [(''destinationPath'', ''$(runtime.windows)'')] [],
        Element ''dependency'' [] [],
        Element file_tag [(''name'', ''c.dll'')] [],
        Element file_tag [(''name'', ''d.dll''), (''destinationPath'', ''$(other)'')] []]"

lemma re_sub_known: "re_sub ''$(runtime.Windows)'' = ''%SystemRoot%''"
  by (simp add: match_token_def replace_def py_lower_def lower_char_def PACKAGE_VARIABLES_def
      char_of_eq_iff)

lemma re_sub_unknown: "re_sub ''$(other)'' = ''$(other)''"
  by (simp add: match_token_def replace_def py_lower_def lower_char_def PACKAGE_VARIABLES_def
      full_name_def char_of_eq_iff)

theorem get_manifest_files_skips_partial_witness:
  "\<exists>m2. get_manifest_files (Suc (Suc (Suc (Suc (Suc 0)))))
           (example_archive_env [0x3C, 0x61, 0x2F, 0x3E] example_document) example_manifest =
         Some (Inr [''%SystemRoot%'' @ [backslash] @ ''a.dll'', ''$(other)'' @ [backslash] @ ''d.dll''], m2)"
proof -
  let ?env = "example_archive_env [0x3C, 0x61, 0x2F, 0x3E] example_document"
  have f: "falsy (manifest_files example_manifest)"
    by (simp add: example_manifest_def Manifest_init_def falsy_def)
  have b: "falsy (manifest_buffer (example_manifest\<lparr>manifest_files := Some []\<rparr>))"
    by (simp add: example_manifest_def Manifest_init_def falsy_def)
  have r: "read_file ?env (manifest_path (example_manifest\<lparr>manifest_files := Some []\<rparr>))
             = Inr [0x3C, 0x61, 0x2F, 0x3E]"
    using example_read by simp
  have x: "\<exists>m1. get_manifest_xml (Suc (Suc (Suc (Suc 0)))) ?env
             (example_manifest\<lparr>manifest_files := Some []\<rparr>) = Some (Inr example_document, m1)"
    using get_manifest_buffer_plain [OF b r, of 0]
    by (simp add: startswith_def DCM_HEADER_def example_manifest_def Manifest_init_def
        example_archive_env_def example_env_def del: get_manifest_buffer.simps)
  then obtain m1 where "get_manifest_xml (Suc (Suc (Suc (Suc 0)))) ?env
             (example_manifest\<lparr>manifest_files := Some []\<rparr>) = Some (Inr example_document, m1)" ..
  from get_manifest_files_skips_partial [OF f this]
  obtain m2 where "get_manifest_files (Suc (Suc (Suc (Suc (Suc 0))))) ?env example_manifest =
      Some (Inr (List.map_filter (declared_path ?env)
                   (find_child_elements_by_match example_document [file_tag])), m2)"
    by blast
  moreover have "List.map_filter (declared_path ?env)
                   (find_child_elements_by_match example_document [file_tag]) =
                 [''%SystemRoot%'' @ [backslash] @ ''a.dll'', ''$(other)'' @ [backslash] @ ''d.dll'']"
    by (simp add: example_document_def find_child_single declared_path_def
        expand_manifest_path_variables_def re_sub_known re_sub_unknown
        example_archive_env_def example_env_def del: re_sub.simps)
  ultimately show ?thesis
    by (simp del: get_manifest_files.simps)
qed

section \<open>The caches\<close>

text \<open>The list a call returns is the list the instance holds afterwards.\<close>

lemma get_manifest_files_stored:
  assumes "get_manifest_files k env m = Some (Inr fs, m1)"
  shows "manifest_files m1 = Some fs"
proof (cases k)
  case 0
  with assms show ?thesis by simp
next
  case (Suc n)
  show ?thesis
  proof (cases "falsy (manifest_files m)")
    case True
    with assms Suc show ?thesis
      by (auto split: option.splits sum.splits prod.splits)
  next
    case False
    with assms Suc show ?thesis
      by (auto split: option.splits)
  qed
qed

lemma get_manifest_files_twice:
  assumes "get_manifest_files k env m = Some (Inr fs, m1)" and "fs \<noteq> []"
  shows "get_manifest_files (Suc j) env m1 = Some (Inr fs, m1)"
  using get_manifest_files_stored [OF assms(1)] assms(2)
  by (simp add: falsy_def)

text \<open>
  A manifest whose only file element lacks its name, so that its file list is empty;
  the instance after the first call has read the file and parsed the document.
\<close>

definition partial_document :: xml where
  "partial_document =
     Element ''assembly'' []
       [Element file_tag [(''destinationPath'', ''$(runtime.system32)'')] []]"

definition partial_env :: env where
  "partial_env = example_archive_env [0x3C, 0x61, 0x2F, 0x3E] partial_document"

definition partial_loaded :: manifest where
  "partial_loaded =
     example_manifest
       \<lparr>manifest_buffer := Some [0x3C, 0x61, 0x2F, 0x3E],
        manifest_xml := Some partial_document,
        manifest_files := Some [],
        probe := [ReadFile (manifest_path example_manifest),
                  LoadXmlFromBuffer [0x3C, 0x61, 0x2F, 0x3E]]\<rparr>"

lemma partial_get_manifest_xml:
  "get_manifest_xml (Suc (Suc (Suc (Suc n)))) partial_env
     (example_manifest\<lparr>manifest_files := Some []\<rparr>) = Some (Inr partial_document, partial_loaded)"
proof -
  have b: "falsy (manifest_buffer (example_manifest\<lparr>manifest_files := Some []\<rparr>))"
    by (simp add: example_manifest_def Manifest_init_def falsy_def)
  have r: "read_file partial_env (manifest_path (example_manifest\<lparr>manifest_files := Some []\<rparr>))
             = Inr [0x3C, 0x61, 0x2F, 0x3E]"
    using example_read by (simp add: partial_env_def)
  have l: "load_xml_from_buffer partial_env = (\<lambda>b. Inr partial_document)"
    by (simp add: partial_env_def example_archive_env_def example_env_def)
  have x: "manifest_xml (example_manifest\<lparr>manifest_files := Some []\<rparr>) = None"
    and p: "probe example_manifest = []"
    by (simp_all add: example_manifest_def Manifest_init_def)
  show ?thesis
    using get_manifest_buffer_plain [OF b r, of n] x p l
    by (simp add: startswith_def DCM_HEADER_def partial_loaded_def
        del: get_manifest_buffer.simps)
qed

lemma partial_loop:
  "manifest_files_loop partial_env (find_child_elements_by_match partial_document [file_tag]) [] out
     = (Inr [], out @ [PrintWhatIsInHere])"
  by (simp add: partial_document_def find_child_single file_element_path_def
      get_element_attribute_def)

text \<open>
  C4.  A file list that is not empty is a cache: the second call returns it and leaves
  the instance as it was (\<open>get_manifest_files_twice\<close>).  An empty file list is not: the
  test of the cache takes \<open>[]\<close> for an unfilled cache, and the second call searches
  the document for file elements again and prints the diagnostic line of every skipped
  element again.  It returns an equal list, and the file is not read nor the document
  parsed again, since the document cache holds.
\<close>

theorem get_manifest_files_empty_list_recomputed:
  "get_manifest_files (Suc (Suc (Suc (Suc (Suc n))))) partial_env example_manifest =
     Some (Inr [], partial_loaded
             \<lparr>probe := probe partial_loaded @ [FindChildElements file_tag, PrintWhatIsInHere]\<rparr>) \<and>
   get_manifest_files (Suc (Suc (Suc (Suc (Suc n))))) partial_env
       (partial_loaded
          \<lparr>probe := probe partial_loaded @ [FindChildElements file_tag, PrintWhatIsInHere]\<rparr>) =
     Some (Inr [], partial_loaded
             \<lparr>probe := probe partial_loaded @
                [FindChildElements file_tag, PrintWhatIsInHere,
                 FindChildElements file_tag, PrintWhatIsInHere]\<rparr>)"
proof
  have f: "falsy (manifest_files example_manifest)"
    by (simp add: example_manifest_def Manifest_init_def falsy_def)
  show "get_manifest_files (Suc (Suc (Suc (Suc (Suc n))))) partial_env example_manifest =
     Some (Inr [], partial_loaded
             \<lparr>probe := probe partial_loaded @ [FindChildElements file_tag, PrintWhatIsInHere]\<rparr>)"
    using f partial_get_manifest_xml [of n]
    by (simp add: partial_loop partial_loaded_def del: get_manifest_xml.simps)
next
  let ?m1 = "partial_loaded
          \<lparr>probe := probe partial_loaded @ [FindChildElements file_tag, PrintWhatIsInHere]\<rparr>"
  have f: "falsy (manifest_files ?m1)"
    by (simp add: partial_loaded_def falsy_def)
  have x: "get_manifest_xml (Suc (Suc (Suc (Suc n)))) partial_env (?m1\<lparr>manifest_files := Some []\<rparr>) =
             Some (Inr partial_document, ?m1)"
    by (simp add: partial_loaded_def)
  show "get_manifest_files (Suc (Suc (Suc (Suc (Suc n))))) partial_env ?m1 =
     Some (Inr [], partial_loaded
             \<lparr>probe := probe partial_loaded @
                [FindChildElements file_tag, PrintWhatIsInHere,
                 FindChildElements file_tag, PrintWhatIsInHere]\<rparr>)"
    using f x
    by (simp add: partial_loop partial_loaded_def del: get_manifest_xml.simps)
qed

section \<open>Membership (\<open>is_file_in_manifest_files\<close>)\<close>






lemma search_manifest_files_iff:
  "search_manifest_files fs c = (\<exists>f\<in>set fs. py_lower f = py_lower c)"
  by (induction fs) auto





text \<open>
  A file with accented letters is found under another spelling of its case and under
  the upper case of that spelling.
\<close>

lemma eq_char_of_iff: "(c = char_of n) = (take_bit 8 (n :: nat) = of_char c)"
  using char_of_eq_iff [of n c] by auto



section \<open>Path variables (\<open>expand_manifest_path_variables\<close>)\<close>

text \<open>
  A string read from the left as a sequence of pieces: a token \<^verbatim>\<open>$(name)\<close>, whose name
  is not empty and has no closing parenthesis, or a single character at which no token
  starts.  A token starts where \<^verbatim>\<open>$(\<close> is followed by a character other than the
  closing parenthesis and a closing parenthesis comes somewhere after it.  \<open>piece_src\<close>
  is the piece as it stands in the input; \<open>piece_out\<close> is what the claim says of it:
  the table's value for a name that the table has in lower case, the token itself for
  any other name, the character itself for a character.
\<close>

datatype piece = Tok string | Chr char

fun piece_src :: "piece \<Rightarrow> string" where
  "piece_src (Tok n) = ''$('' @ n @ '')''"
| "piece_src (Chr c) = [c]"

fun piece_out :: "piece \<Rightarrow> string" where
  "piece_out (Tok n) =
     (case map_of PACKAGE_VARIABLES (py_lower n) of
        Some v \<Rightarrow> v
      | None \<Rightarrow> ''$('' @ n @ '')'')"
| "piece_out (Chr c) = [c]"

definition starts_token :: "string \<Rightarrow> bool" where
  "starts_token s =
     (take 2 s = ''$('' \<and> drop 2 s \<noteq> [] \<and> hd (drop 2 s) \<noteq> CHR '')'' \<and>
      CHR '')'' \<in> set (drop 2 s))"

fun reads_as :: "string \<Rightarrow> piece list \<Rightarrow> bool" where
  "reads_as s [] = (s = [])"
| "reads_as s (Tok n # ps) =
     (n \<noteq> [] \<and> CHR '')'' \<notin> set n \<and>
      take (length n + 3) s = ''$('' @ n @ '')'' \<and> reads_as (drop (length n + 3) s) ps)"
| "reads_as s (Chr c # ps) =
     (s \<noteq> [] \<and> hd s = c \<and> \<not> starts_token s \<and> reads_as (tl s) ps)"

text \<open>The scanner matches exactly where a token starts, and then takes the whole token.\<close>

lemma starts_token_match: "starts_token s = (match_token s \<noteq> None)"
proof (cases s)
  case Nil
  then show ?thesis by (simp add: starts_token_def match_token_def)
next
  case (Cons c t)
  show ?thesis
  proof (cases t)
    case Nil
    with Cons show ?thesis by (simp add: starts_token_def match_token_def)
  next
    case (Cons d r)
    with \<open>s = c # t\<close> show ?thesis
      by (auto simp: starts_token_def match_token_def Let_def takeWhile_eq_Nil_iff)
  qed
qed

lemma split_at_paren:
  "CHR '')'' \<notin> set n \<Longrightarrow>
   takeWhile (\<lambda>x. x \<noteq> CHR '')'') (n @ CHR '')'' # t) = n \<and>
   dropWhile (\<lambda>x. x \<noteq> CHR '')'') (n @ CHR '')'' # t) = CHR '')'' # t"
  by (induction n) auto

lemma match_token_tok:
  assumes "n \<noteq> []" and "CHR '')'' \<notin> set n"
  shows "match_token (''$('' @ n @ '')'' @ t) = Some (n, t)"
  using assms(1) split_at_paren [OF assms(2), of t] by (simp add: match_token_def)

lemma re_sub_tok:
  assumes "n \<noteq> []" and "CHR '')'' \<notin> set n"
  shows "re_sub (''$('' @ n @ '')'' @ t) = replace n @ re_sub t"
  using match_token_tok [OF assms, of t] by simp

lemma tok_take_drop:
  "take (length n + 3) (''$('' @ n @ '')'' @ rest) = ''$('' @ n @ '')'' \<and>
   drop (length n + 3) (''$('' @ n @ '')'' @ rest) = rest"
  by (simp add: numeral_3_eq_3)

lemma re_sub_chr:
  assumes "\<not> starts_token (c # cs)"
  shows "re_sub (c # cs) = c # re_sub cs"
proof -
  from assms have "match_token (c # cs) = None"
    by (cases "match_token (c # cs)") (simp_all add: starts_token_match)
  then show ?thesis by simp
qed

lemma piece_out_Tok: "piece_out (Tok n) = replace n"
  by (simp add: replace_def full_name_def split: option.splits)

lemma reads_as_re_sub:
  "reads_as s ps \<Longrightarrow> concat (map piece_src ps) = s \<and> re_sub s = concat (map piece_out ps)"
proof (induction ps arbitrary: s)
  case Nil
  then show ?case by simp
next
  case (Cons p ps)
  show ?case
  proof (cases p)
    case (Tok n)
    let ?k = "length n + 3"
    from Cons.prems Tok have n: "n \<noteq> []" "CHR '')'' \<notin> set n"
      and t: "take ?k s = ''$('' @ n @ '')''" and r: "reads_as (drop ?k s) ps"
      by simp_all
    from t have s: "''$('' @ n @ '')'' @ drop ?k s = s"
      by (metis append_take_drop_id append.assoc)
    from Cons.IH [OF r] have ih: "concat (map piece_src ps) = drop ?k s"
      "re_sub (drop ?k s) = concat (map piece_out ps)" by simp_all
    have "re_sub (''$('' @ n @ '')'' @ drop ?k s) = replace n @ re_sub (drop ?k s)"
      by (rule re_sub_tok [OF n])
    then have "re_sub s = replace n @ concat (map piece_out ps)"
      unfolding s ih(2) .
    moreover have "concat (map piece_src (Tok n # ps)) = s"
      using s ih(1) by simp
    ultimately show ?thesis using Tok
      by (simp add: piece_out_Tok del: piece_out.simps re_sub.simps)
  next
    case (Chr c)
    with Cons.prems obtain cs where s: "s = c # cs" and ns: "\<not> starts_token (c # cs)"
      and r: "reads_as cs ps"
      by (cases s) auto
    from Cons.IH [OF r] re_sub_chr [OF ns] s Chr show ?thesis
      by (simp del: re_sub.simps)
  qed
qed

lemma reads_as_exists: "\<exists>ps. reads_as s ps"
proof (induction s rule: re_sub.induct)
  case 1
  have "reads_as [] []" by simp
  then show ?case ..
next
  case (2 c cs)
  show ?case
  proof (cases "match_token (c # cs)")
    case None
    from "2.IH"(1) [OF None] obtain ps where "reads_as cs ps" ..
    with None have "reads_as (c # cs) (Chr c # ps)"
      by (simp add: starts_token_match)
    then show ?thesis ..
  next
    case (Some a)
    obtain n rest where a: "a = (n, rest)" by (cases a)
    from "2.IH"(2) [OF Some a [symmetric]] obtain ps where ps: "reads_as rest ps" ..
    from Some a have m: "match_token (c # cs) = Some (n, rest)" by simp
    from match_token_Some [OF m] have e: "c # cs = ''$('' @ n @ '')'' @ rest"
      and n: "n \<noteq> []" "CHR '')'' \<notin> set n"
      by (simp_all add: full_name_def)
    have "reads_as (''$('' @ n @ '')'' @ rest) (Tok n # ps)"
      unfolding reads_as.simps using n ps tok_take_drop [of n rest] by simp
    with e have "reads_as (c # cs) (Tok n # ps)" by simp
    then show ?thesis ..
  qed
qed

text \<open>Every key of the table is in lower case, so the lookup ignores the case of the name.\<close>

lemma PACKAGE_VARIABLES_keys_lower:
  "list_all (\<lambda>kv. py_lower (fst kv) = fst kv) PACKAGE_VARIABLES"
  by (simp add: PACKAGE_VARIABLES_def py_lower_def lower_char_def)

text \<open>
  C5.  Every input string can be read as such a sequence of pieces, and for every way
  of reading it the pieces spell the input and \<open>expand_manifest_path_variables\<close> returns
  \<open>os.path.expandvars\<close> of the string in which every token with a name of the table
  (in any case) is replaced by the table's value and every other token and every other
  character stands as it was.  The function is total: no input raises.
\<close>

theorem expand_manifest_path_variables_tokens:
  "(\<exists>ps. reads_as s ps) \<and>
   (\<forall>ps. reads_as s ps \<longrightarrow>
      concat (map piece_src ps) = s \<and>
      expand_manifest_path_variables env s = expandvars env (concat (map piece_out ps)))"
  using reads_as_exists [of s] reads_as_re_sub [of s]
  by (simp add: expand_manifest_path_variables_def del: re_sub.simps)

text \<open>
  A lone \<^verbatim>\<open>$\<close> before a token, a known name in mixed case, an unknown name, an empty
  \<^verbatim>\<open>$()\<close>, an unclosed \<^verbatim>\<open>$(\<close> and a \<^verbatim>\<open>$\<close> at the end, on the example machine
  (where \<open>expandvars\<close> changes nothing).
\<close>

theorem expand_manifest_path_variables_tokens_witness:
  "expand_manifest_path_variables (example_env [] (Element [] [] []))
     ''$$(Runtime.Help)$(bogus.var)$()$(x$'' =
   ''$%SystemRoot%'' @ [backslash] @ ''Help$(bogus.var)$()$(x$''"
proof -
  have r: "reads_as ''$$(Runtime.Help)$(bogus.var)$()$(x$''
             [Chr CHR ''$'', Tok ''Runtime.Help'', Tok ''bogus.var'',
              Chr CHR ''$'', Chr CHR ''('', Chr CHR '')'',
              Chr CHR ''$'', Chr CHR ''('', Chr CHR ''x'', Chr CHR ''$'']"
    by (simp add: starts_token_def)
  from expand_manifest_path_variables_tokens
         [of "''$$(Runtime.Help)$(bogus.var)$()$(x$''" "example_env [] (Element [] [] [])"] r
  have "expand_manifest_path_variables (example_env [] (Element [] [] []))
          ''$$(Runtime.Help)$(bogus.var)$()$(x$'' =
        expandvars (example_env [] (Element [] [] []))
          (concat (map piece_out
             [Chr CHR ''$'', Tok ''Runtime.Help'', Tok ''bogus.var'',
              Chr CHR ''$'', Chr CHR ''('', Chr CHR '')'',
              Chr CHR ''$'', Chr CHR ''('', Chr CHR ''x'', Chr CHR ''$'']))"
    by blast
  then show ?thesis
    by (simp add: example_env_def PACKAGE_VARIABLES_def py_lower_def lower_char_def
        char_of_eq_iff eq_char_of_iff del: re_sub.simps)
qed

section \<open>A run (\<open>main\<close>)\<close>

text \<open>
  As the code stands, no run gets past the first statement of the body: \<open>parse_args\<close>
  stores the option \<^verbatim>\<open>--config-xml\<close> as \<open>config_xml\<close>, the body reads
  \<open>args.config_file\<close>, and the run ends with an \<open>AttributeError\<close> before any file is
  touched.
\<close>

lemma main_stops_at_config_file:
  "main n env archive c w =
     Some (Inl (case parse_args c of Inl e \<Rightarrow> e | Inr args \<Rightarrow> AttributeError ''config_file''), w)"
  by (simp add: main_def main_body_def parse_args_def getattr_def)














section \<open>The resolver (\<open>resolveSource\<close>)\<close>

text \<open>
  A component loads when its manifest yields its file list, and owns a destination
  path when that list holds a path equal to it in lower case.  A component is passed
  when it loads and does not own the path.  The first owner is the component that
  follows the passed ones, when it owns the path.  An update file is settled when it
  needs no resolution or its destination has a first owner.
\<close>

definition loads :: "nat \<Rightarrow> env \<Rightarrow> manifest \<Rightarrow> bool" where
  "loads n env c =
     (case get_manifest_files n env c of Some (Inr fs, m1) \<Rightarrow> True | _ \<Rightarrow> False)"

definition owns :: "nat \<Rightarrow> env \<Rightarrow> string \<Rightarrow> manifest \<Rightarrow> bool" where
  "owns n env d c =
     (case get_manifest_files n env c of
        Some (Inr fs, m1) \<Rightarrow> list_ex (\<lambda>f. py_lower f = py_lower d) fs
      | _ \<Rightarrow> False)"

definition passed :: "nat \<Rightarrow> env \<Rightarrow> string \<Rightarrow> manifest \<Rightarrow> bool" where
  "passed n env d c = (loads n env c \<and> \<not> owns n env d c)"

definition first_owner :: "nat \<Rightarrow> env \<Rightarrow> manifest list \<Rightarrow> string \<Rightarrow> manifest option" where
  "first_owner n env archive d =
     (case dropWhile (passed n env d) archive of
        [] \<Rightarrow> None
      | c # rest \<Rightarrow> if owns n env d c then Some c else None)"

definition settled :: "nat \<Rightarrow> env \<Rightarrow> manifest list \<Rightarrow> update_file \<Rightarrow> bool" where
  "settled n env archive u =
     (\<not> should_retrieve_oldest u \<or> first_owner n env archive (full_path (destination u)) \<noteq> None)"

text \<open>The resolver goes by the passed components and stops at the owner.\<close>

lemma loads_answer:
  assumes "loads n env c"
  shows "\<exists>m1. is_file_in_manifest_files (Suc n) env c d = Some (Inr (owns n env d c), m1)"
proof -
  from assms obtain fs m1 where "get_manifest_files n env c = Some (Inr fs, m1)"
    by (auto simp: loads_def split: option.splits sum.splits prod.splits)
  then show ?thesis by (simp add: owns_def search_manifest_files_iff list_ex_iff)
qed

lemma owns_loads: "owns n env d c \<Longrightarrow> loads n env c"
  by (auto simp: owns_def loads_def split: option.splits sum.splits prod.splits)

lemma resolveSource_passed:
  "list_all (passed n env d) pre \<Longrightarrow>
   resolveSource (Suc n) env (pre @ rest) d = resolveSource (Suc n) env rest d"
proof (induction pre)
  case Nil
  show ?case by simp
next
  case (Cons c pre)
  from Cons.prems have p: "passed n env d c"
    and rest: "list_all (passed n env d) pre"
    by simp_all
  from p have l: "loads n env c" and o: "\<not> owns n env d c"
    by (simp_all add: passed_def)
  from loads_answer [OF l, of d] obtain m1 where
    "is_file_in_manifest_files (Suc n) env c d = Some (Inr (owns n env d c), m1)" ..
  with o Cons.IH [OF rest] show ?case
    by (simp del: is_file_in_manifest_files.simps)
qed

lemma resolveSource_owner:
  assumes "list_all (passed n env d) pre" and "owns n env d c"
  shows "resolveSource (Suc n) env (pre @ c # post) d =
           Some (Inr (component_file_path env (manifest_name c) d))"
proof -
  from loads_answer [OF owns_loads [OF assms(2)], of d] obtain m1 where
    "is_file_in_manifest_files (Suc n) env c d = Some (Inr (owns n env d c), m1)" ..
  with assms(2) have "resolveSource (Suc n) env (c # post) d =
           Some (Inr (component_file_path env (manifest_name c) d))"
    by (simp del: is_file_in_manifest_files.simps)
  with resolveSource_passed [OF assms(1), of "c # post"] show ?thesis by simp
qed

lemma resolveSource_unowned:
  assumes "list_all (passed n env d) archive"
  shows "resolveSource (Suc n) env archive d = Some (Inl (UnresolvableSourceError d))"
  using resolveSource_passed [OF assms, of "[]"] by simp

lemma first_owner_resolveSource:
  assumes "first_owner n env archive d = Some c"
  shows "resolveSource (Suc n) env archive d =
           Some (Inr (component_file_path env (manifest_name c) d))"
proof -
  from assms obtain rest where d: "dropWhile (passed n env d) archive = c # rest"
    and o: "owns n env d c"
    by (auto simp: first_owner_def split: list.splits if_splits)
  have "list_all (passed n env d) (takeWhile (passed n env d) archive)"
    by (simp add: list_all_iff) (meson set_takeWhileD)
  from resolveSource_owner [OF this o, of rest] d
  show ?thesis using takeWhile_dropWhile_id [of "passed n env d" archive] by simp
qed

lemma retrieve_settled:
  assumes "retrieve_oldest_files_for_update_files (Suc n) env archive rest = Some (Inl e)"
  shows "list_all (settled n env archive) before \<Longrightarrow>
         retrieve_oldest_files_for_update_files (Suc n) env archive (before @ rest) = Some (Inl e)"
proof (induction before)
  case Nil
  with assms show ?case by simp
next
  case (Cons u before)
  from Cons.prems have s: "settled n env archive u"
    and rest: "list_all (settled n env archive) before" by simp_all
  note ih = Cons.IH [OF rest]
  show ?case
  proof (cases "should_retrieve_oldest u")
    case False
    with ih show ?thesis by (simp del: resolveSource.simps)
  next
    case True
    with s obtain c where "first_owner n env archive (full_path (destination u)) = Some c"
      by (auto simp: settled_def)
    from first_owner_resolveSource [OF this] True ih show ?thesis
      by (simp del: resolveSource.simps)
  qed
qed

lemma retrieve_unowned:
  assumes "list_all (passed n env d) archive" and "should_retrieve_oldest u"
    and "full_path (destination u) = d" and "list_all (settled n env archive) before"
  shows "retrieve_oldest_files_for_update_files (Suc n) env archive (before @ u # after) =
           Some (Inl (UnresolvableSourceError d))"
proof -
  have "retrieve_oldest_files_for_update_files (Suc n) env archive (u # after) =
           Some (Inl (UnresolvableSourceError d))"
    using resolveSource_unowned [OF assms(1)] assms(2,3) by (simp del: resolveSource.simps)
  from retrieve_settled [OF this assms(4)] show ?thesis .
qed

text \<open>
  C3.  When the components before a component are passed and that component owns the
  destination path, \<open>resolveSource\<close> returns the path associated with it, whatever
  comes after it in the archive.  When every component is passed, \<open>resolveSource\<close>
  fails with \<open>UnresolvableSourceError\<close>; then the retrieval fails with that error on
  any list in which an update file that needs this destination resolved comes after
  settled ones, and a run whose configuration gives that list ends with that error
  and has written nothing: no document is built.
\<close>

theorem resolveSource_first_owner:
  "(list_all (passed n env d) pre \<and> owns n env d c \<longrightarrow>
      resolveSource (Suc n) env (pre @ c # post) d =
        Some (Inr (component_file_path env (manifest_name c) d))) \<and>
   (list_all (passed n env d) archive \<longrightarrow>
      resolveSource (Suc n) env archive d = Some (Inl (UnresolvableSourceError d)) \<and>
      (should_retrieve_oldest u \<and> full_path (destination u) = d \<and>
       list_all (settled n env archive) before \<longrightarrow>
         retrieve_oldest_files_for_update_files (Suc n) env archive (before @ u # after) =
           Some (Inl (UnresolvableSourceError d)) \<and>
         (getattr args ''config_file'' = Inr (PyStr cf) \<and> cf \<noteq> [] \<and> is_path_exists env cf \<and>
          parse_config_xml env cf = Inr (before @ u # after) \<longrightarrow>
            main_body (Suc n) env archive args w =
              Some (Inl (UnresolvableSourceError d), w))))"
proof (intro conjI impI)
  show "resolveSource (Suc n) env (pre @ c # post) d =
          Some (Inr (component_file_path env (manifest_name c) d))"
    if "list_all (passed n env d) pre \<and> owns n env d c"
    using that resolveSource_owner by blast
next
  assume a: "list_all (passed n env d) archive"
  then show "resolveSource (Suc n) env archive d = Some (Inl (UnresolvableSourceError d))"
    by (rule resolveSource_unowned)
  assume b: "should_retrieve_oldest u \<and> full_path (destination u) = d \<and>
             list_all (settled n env archive) before"
  with a show r: "retrieve_oldest_files_for_update_files (Suc n) env archive (before @ u # after) =
           Some (Inl (UnresolvableSourceError d))"
    by (intro retrieve_unowned) simp_all
  assume "getattr args ''config_file'' = Inr (PyStr cf) \<and> cf \<noteq> [] \<and> is_path_exists env cf \<and>
          parse_config_xml env cf = Inr (before @ u # after)"
  with r show "main_body (Suc n) env archive args w = Some (Inl (UnresolvableSourceError d), w)"
    by (simp add: main_body_def truthy_def py_str_def
        del: retrieve_oldest_files_for_update_files.simps)
qed

text \<open>A new instance whose file holds a full document yields the declared paths of that document.\<close>

lemma fresh_files:
  assumes "read_file env (manifest_path (Manifest_init nm)) = Inr raw" and "raw \<noteq> []"
    and "\<not> startswith raw DCM_HEADER" and "load_xml_from_buffer env raw = Inr x"
  shows "\<exists>m1. get_manifest_files (Suc (Suc (Suc (Suc (Suc k))))) env (Manifest_init nm) =
           Some (Inr (List.map_filter (declared_path env)
                        (find_child_elements_by_match x [file_tag])), m1)"
proof -
  let ?m = "Manifest_init nm\<lparr>manifest_files := Some []\<rparr>"
  have b: "falsy (manifest_buffer ?m)" by (simp add: Manifest_init_def falsy_def)
  have r: "read_file env (manifest_path ?m) = Inr raw" using assms(1) by simp
  have "manifest_xml ?m = None" by (simp add: Manifest_init_def)
  with get_manifest_buffer_plain [OF b r assms(2,3), of k] assms(4)
  obtain m0 where x: "get_manifest_xml (Suc (Suc (Suc (Suc k)))) env ?m = Some (Inr x, m0)"
    by (simp del: get_manifest_buffer.simps)
  obtain out' where
    "manifest_files_loop env (find_child_elements_by_match x [file_tag]) []
        (probe m0 @ [FindChildElements file_tag]) =
      (Inr ([] @ List.map_filter (declared_path env) (find_child_elements_by_match x [file_tag])), out')"
    using manifest_files_loop_map_filter by blast
  moreover have "falsy (manifest_files (Manifest_init nm))"
    by (simp add: Manifest_init_def falsy_def)
  ultimately show ?thesis using x by (simp del: get_manifest_xml.simps)
qed

text \<open>
  An archive of three components, none of them loaded yet; each manifest declares one
  file, the second and the third the same one in different case.  The configuration
  asks for four replacements: the second needs a file that the archive holds, the
  third one that no component owns.
\<close>

definition store_document :: "string \<Rightarrow> xml" where
  "store_document f =
     Element ''assembly'' [] [Element file_tag [(''destinationPath'', ''C:''), (''name'', f)] []]"

definition store_config :: xml where
  "store_config =
     Element ''Configuration'' []
       [Element ''UpdateFilesList'' []
          [Element ''UpdateFile'' [(''source'', ''a''), (''destination'', ''b'')] [],
           Element ''UpdateFile'' [(''source'', ''?''), (''destination'', ''c:'' @ [backslash] @ ''b.dll'')] [],
           Element ''UpdateFile'' [(''source'', ''?''), (''destination'', ''c:'' @ [backslash] @ ''z.dll'')] [],
           Element ''UpdateFile'' [(''source'', ''b''), (''destination'', ''a'')] []]]"

definition store_files :: "(string \<times> bytes) list" where
  "store_files =
     [(manifest_path (Manifest_init ''old''), [1]),
      (manifest_path (Manifest_init ''mid''), [2]),
      (manifest_path (Manifest_init ''new''), [3]),
      (''Config.xml'', [0x3C]), (''a'', [1]), (''b'', [2]),
      (''c:'' @ [backslash] @ ''b.dll'', [4]),
      (''c:'' @ [backslash] @ ''z.dll'', [5])]"

definition store_env :: env where
  "store_env =
     (example_env store_files store_config)
       \<lparr>load_xml_from_buffer :=
          (\<lambda>b. if b = [1] then Inr (store_document ''a.dll'')
                else if b = [2] then Inr (store_document ''B.DLL'')
                else if b = [3] then Inr (store_document ''b.dll'')
                else Inl (ExternalError ''xml''))\<rparr>"

definition store_archive :: "manifest list" where
  "store_archive = [Manifest_init ''old'', Manifest_init ''mid'', Manifest_init ''new'']"

lemma store_document_paths:
  "List.map_filter (declared_path store_env) (find_child_elements_by_match (store_document f) [file_tag])
     = [''C:'' @ [backslash] @ f]"
  by (simp add: store_document_def find_child_single declared_path_def
      expand_manifest_path_variables_def match_token_def store_env_def example_env_def)

lemma store_read:
  "read_file store_env (manifest_path (Manifest_init ''old'')) = Inr [1]"
  "read_file store_env (manifest_path (Manifest_init ''mid'')) = Inr [2]"
  "read_file store_env (manifest_path (Manifest_init ''new'')) = Inr [3]"
  by (simp_all add: store_env_def example_env_def store_files_def Manifest_init_def)

lemma store_load:
  "load_xml_from_buffer store_env [1] = Inr (store_document ''a.dll'')"
  "load_xml_from_buffer store_env [2] = Inr (store_document ''B.DLL'')"
  "load_xml_from_buffer store_env [3] = Inr (store_document ''b.dll'')"
  by (simp_all add: store_env_def)

lemma store_plain:
  "\<not> startswith [1 :: byte] DCM_HEADER" "\<not> startswith [2 :: byte] DCM_HEADER"
  "\<not> startswith [3 :: byte] DCM_HEADER"
  by (simp_all add: startswith_def DCM_HEADER_def)

lemma store_manifest_files:
  "\<exists>m1. get_manifest_files (Suc (Suc (Suc (Suc (Suc 0))))) store_env (Manifest_init ''old'') =
          Some (Inr [''C:'' @ [backslash] @ ''a.dll''], m1)"
  "\<exists>m1. get_manifest_files (Suc (Suc (Suc (Suc (Suc 0))))) store_env (Manifest_init ''mid'') =
          Some (Inr [''C:'' @ [backslash] @ ''B.DLL''], m1)"
  "\<exists>m1. get_manifest_files (Suc (Suc (Suc (Suc (Suc 0))))) store_env (Manifest_init ''new'') =
          Some (Inr [''C:'' @ [backslash] @ ''b.dll''], m1)"
  using fresh_files [OF store_read(1) _ store_plain(1) store_load(1), of 0]
    fresh_files [OF store_read(2) _ store_plain(2) store_load(2), of 0]
    fresh_files [OF store_read(3) _ store_plain(3) store_load(3), of 0]
  unfolding store_document_paths by simp_all

lemma store_owns:
  "loads (Suc (Suc (Suc (Suc (Suc 0))))) store_env (Manifest_init ''old'')"
  "loads (Suc (Suc (Suc (Suc (Suc 0))))) store_env (Manifest_init ''mid'')"
  "loads (Suc (Suc (Suc (Suc (Suc 0))))) store_env (Manifest_init ''new'')"
  "owns (Suc (Suc (Suc (Suc (Suc 0))))) store_env d (Manifest_init ''old'') =
     (py_lower (''C:'' @ [backslash] @ ''a.dll'') = py_lower d)"
  "owns (Suc (Suc (Suc (Suc (Suc 0))))) store_env d (Manifest_init ''mid'') =
     (py_lower (''C:'' @ [backslash] @ ''B.DLL'') = py_lower d)"
  "owns (Suc (Suc (Suc (Suc (Suc 0))))) store_env d (Manifest_init ''new'') =
     (py_lower (''C:'' @ [backslash] @ ''b.dll'') = py_lower d)"
  using store_manifest_files
  by (auto simp: loads_def owns_def simp del: get_manifest_files.simps)

definition store_requests :: "update_file list" where
  "store_requests =
     [\<lparr>source = \<lparr>full_path = ''a''\<rparr>, destination = \<lparr>full_path = ''b''\<rparr>,
       should_retrieve_oldest = False, persisted = False\<rparr>,
      \<lparr>source = \<lparr>full_path = ''?''\<rparr>, destination = \<lparr>full_path = ''c:'' @ [backslash] @ ''b.dll''\<rparr>,
       should_retrieve_oldest = True, persisted = False\<rparr>,
      \<lparr>source = \<lparr>full_path = ''?''\<rparr>, destination = \<lparr>full_path = ''c:'' @ [backslash] @ ''z.dll''\<rparr>,
       should_retrieve_oldest = True, persisted = False\<rparr>,
      \<lparr>source = \<lparr>full_path = ''b''\<rparr>, destination = \<lparr>full_path = ''a''\<rparr>,
       should_retrieve_oldest = False, persisted = False\<rparr>]"

lemma store_parse: "parse_config_xml store_env ''Config.xml'' = Inr store_requests"
  by (simp add: parse_config_xml_def store_env_def example_env_def store_files_def
      store_config_def find_child_elements_by_match_def get_element_attribute_def
      store_requests_def Manifest_init_def backslash_def)

theorem resolveSource_first_owner_witness:
  "resolveSource (Suc (Suc (Suc (Suc (Suc (Suc 0)))))) store_env store_archive
     (''c:'' @ [backslash] @ ''b.dll'') =
     Some (Inr (component_file_path store_env ''mid'' (''c:'' @ [backslash] @ ''b.dll''))) \<and>
   resolveSource (Suc (Suc (Suc (Suc (Suc (Suc 0)))))) store_env store_archive
     (''c:'' @ [backslash] @ ''z.dll'') =
     Some (Inl (UnresolvableSourceError (''c:'' @ [backslash] @ ''z.dll''))) \<and>
   retrieve_oldest_files_for_update_files (Suc (Suc (Suc (Suc (Suc (Suc 0)))))) store_env
     store_archive store_requests =
     Some (Inl (UnresolvableSourceError (''c:'' @ [backslash] @ ''z.dll''))) \<and>
   main_body (Suc (Suc (Suc (Suc (Suc (Suc 0)))))) store_env store_archive
     [(''config_file'', PyStr ''Config.xml'')] [] =
     Some (Inl (UnresolvableSourceError (''c:'' @ [backslash] @ ''z.dll'')), [])"
proof -
  let ?n = "Suc (Suc (Suc (Suc (Suc 0))))"
  let ?b = "''c:'' @ [backslash] @ ''b.dll''"
  let ?z = "''c:'' @ [backslash] @ ''z.dll''"
  let ?u1 = "\<lparr>source = \<lparr>full_path = ''a''\<rparr>, destination = \<lparr>full_path = ''b''\<rparr>,
       should_retrieve_oldest = False, persisted = False\<rparr>"
  let ?u2 = "\<lparr>source = \<lparr>full_path = ''?''\<rparr>, destination = \<lparr>full_path = ?b\<rparr>,
       should_retrieve_oldest = True, persisted = False\<rparr>"
  let ?u3 = "\<lparr>source = \<lparr>full_path = ''?''\<rparr>, destination = \<lparr>full_path = ?z\<rparr>,
       should_retrieve_oldest = True, persisted = False\<rparr>"
  let ?u4 = "\<lparr>source = \<lparr>full_path = ''b''\<rparr>, destination = \<lparr>full_path = ''a''\<rparr>,
       should_retrieve_oldest = False, persisted = False\<rparr>"
  have pb: "list_all (passed ?n store_env ?b) [Manifest_init ''old'']"
    and ob: "owns ?n store_env ?b (Manifest_init ''mid'')"
    by (simp_all add: passed_def store_owns py_lower_def lower_char_def backslash_def
        char_of_eq_iff eq_char_of_iff)
  have pz: "list_all (passed ?n store_env ?z) store_archive"
    by (simp add: store_archive_def passed_def store_owns py_lower_def lower_char_def backslash_def
        char_of_eq_iff eq_char_of_iff)
  have fo: "first_owner ?n store_env store_archive ?b = Some (Manifest_init ''mid'')"
    by (simp add: first_owner_def store_archive_def passed_def store_owns py_lower_def lower_char_def backslash_def
        char_of_eq_iff eq_char_of_iff)
  have st: "list_all (settled ?n store_env store_archive) [?u1, ?u2]"
    using fo by (simp add: settled_def)
  have rq: "store_requests = [?u1, ?u2] @ ?u3 # [?u4]"
    by (simp add: store_requests_def)
  have cf: "getattr [(''config_file'', PyStr ''Config.xml'')] ''config_file'' = Inr (PyStr ''Config.xml'')"
    "is_path_exists store_env ''Config.xml''"
    by (simp_all add: getattr_def store_env_def example_env_def store_files_def Manifest_init_def)
  from resolveSource_first_owner
         [where n = ?n and env = store_env and d = ?b and pre = "[Manifest_init ''old'']"
            and c = "Manifest_init ''mid''" and post = "[Manifest_init ''new'']"] pb ob
  have 1: "resolveSource (Suc ?n) store_env store_archive ?b =
             Some (Inr (component_file_path store_env ''mid'' ?b))"
    by (simp add: store_archive_def Manifest_init_def del: resolveSource.simps)
  from resolveSource_first_owner
         [where n = ?n and env = store_env and d = ?z and archive = store_archive
            and u = ?u3 and before = "[?u1, ?u2]" and after = "[?u4]"
            and args = "[(''config_file'', PyStr ''Config.xml'')]" and cf = "''Config.xml''"
            and w = "[]"] pz st cf store_parse [unfolded rq]
  have 2: "resolveSource (Suc ?n) store_env store_archive ?z = Some (Inl (UnresolvableSourceError ?z))"
    and 3: "retrieve_oldest_files_for_update_files (Suc ?n) store_env store_archive
              ([?u1, ?u2] @ ?u3 # [?u4]) = Some (Inl (UnresolvableSourceError ?z))"
    and 4: "main_body (Suc ?n) store_env store_archive [(''config_file'', PyStr ''Config.xml'')] [] =
              Some (Inl (UnresolvableSourceError ?z), [])"
    by (simp_all del: resolveSource.simps retrieve_oldest_files_for_update_files.simps)
  from 1 2 3 [folded rq] 4 show ?thesis by blast
qed

end
